theory Spec2Isabelle
  imports Complex_Main "HOL-Library.Word"
begin

unbundle bit_operations_syntax

section \<open>The public header of sokol gfx\<close>

text \<open>
  This part follows \<^verbatim>\<open>src/sokol_gfx.h\<close> declaration by declaration. The C data of
  the header is embedded as follows.
  \<^item> \<open>int\<close> fields and arguments are \<open>int\<close>. The only arithmetic the header performs on
    them is the post-increment of an attribute count that an assertion has just bounded
    by 16, so no operation can leave the 32-bit range.
  \<^item> \<open>uint8_t\<close> is \<open>8 word\<close>, \<open>sg_id\<close> (\<open>uint32_t\<close>) and the bit masks are \<open>32 word\<close>.
  \<^item> \<open>float\<close> fields are \<open>real\<close>: the header only stores the constants 0.5 and 1.0
    (both exact in binary floating point) and never computes with them.
  \<^item> a pointer is an \<open>option\<close>, \<open>None\<close> being the null pointer; a C string is a
    \<open>string option\<close>, an untyped data pointer the optional address it holds.
  \<^item> a fixed-size C array is a list; the well-formedness predicates below say that the
    list has the length the C type fixes.
  \<^item> \<open>SOKOL_ASSERT\<close> is taken in its default definition \<open>assert(c)\<close> with assertions
    compiled in: a failed assertion aborts, so the call stops with \<open>Assertion_failed\<close>
    before any later statement runs and yields no descriptor. Indexing an array below 0
    is undefined behaviour in C and stops the model with \<open>Out_of_bounds\<close>.
  \<^item> a struct field keeps its C name; where two structs share a field name, or the name
    is taken in HOL, the field is prefixed with the struct it belongs to
    (\<open>buffer_size\<close>, \<open>uniform_name\<close>, \<open>shader_num_attrs\<close>).
\<close>

datatype error = Assertion_failed | Out_of_bounds

subsection \<open>Constants and enumerations\<close>

type_synonym sg_id = "32 word"

definition SG_INVALID_ID :: sg_id where
  "SG_INVALID_ID = 0"

definition SG_DEFAULT_PASS :: sg_id where
  "SG_DEFAULT_PASS = SG_INVALID_ID"

definition SG_MAX_COLOR_ATTACHMENTS :: nat where
  "SG_MAX_COLOR_ATTACHMENTS = 4"

definition SG_MAX_SHADERSTAGE_BUFFERS :: nat where
  "SG_MAX_SHADERSTAGE_BUFFERS = 4"

definition SG_MAX_SHADERSTAGE_IMAGES :: nat where
  "SG_MAX_SHADERSTAGE_IMAGES = 12"

definition SG_MAX_SHADERSTAGE_UBS :: nat where
  "SG_MAX_SHADERSTAGE_UBS = 4"

definition SG_MAX_UNIFORMS :: nat where
  "SG_MAX_UNIFORMS = 16"

definition SG_MAX_VERTEX_ATTRIBUTES :: nat where
  "SG_MAX_VERTEX_ATTRIBUTES = 16"

datatype sg_resource_type =
    SG_RESOURCETYPE_BUFFER
  | SG_RESOURCETYPE_IMAGE
  | SG_RESOURCETYPE_SHADER
  | SG_RESOURCETYPE_PIPELINE
  | SG_RESOURCETYPE_PASS

text \<open>The enumerator that closes \<open>sg_resource_type\<close> counts the five resource types.\<close>

definition SG_NUM_RESOURCETYPES :: nat where
  "SG_NUM_RESOURCETYPES = 5"

datatype sg_resource_state =
    SG_RESOURCESTATE_INITIAL
  | SG_RESOURCESTATE_ALLOC
  | SG_RESOURCESTATE_VALID
  | SG_RESOURCESTATE_FAILED

subsection \<open>Pass actions\<close>

type_synonym sg_pass_action_bits = "32 word"

definition SG_PASSACTION_CLEAR_COLOR0 :: sg_pass_action_bits where
  "SG_PASSACTION_CLEAR_COLOR0 = push_bit 0 1"

definition SG_PASSACTION_CLEAR_COLOR1 :: sg_pass_action_bits where
  "SG_PASSACTION_CLEAR_COLOR1 = push_bit 1 1"

definition SG_PASSACTION_CLEAR_COLOR2 :: sg_pass_action_bits where
  "SG_PASSACTION_CLEAR_COLOR2 = push_bit 2 1"

definition SG_PASSACTION_CLEAR_COLOR3 :: sg_pass_action_bits where
  "SG_PASSACTION_CLEAR_COLOR3 = push_bit 3 1"

definition SG_PASSACTION_CLEAR_COLOR :: sg_pass_action_bits where
  "SG_PASSACTION_CLEAR_COLOR = push_bit 0 1 OR push_bit 1 1 OR push_bit 2 1 OR push_bit 3 1"

definition SG_PASSACTION_CLEAR_DEPTH :: sg_pass_action_bits where
  "SG_PASSACTION_CLEAR_DEPTH = push_bit 4 1"

definition SG_PASSACTION_CLEAR_STENCIL :: sg_pass_action_bits where
  "SG_PASSACTION_CLEAR_STENCIL = push_bit 5 1"

definition SG_PASSACTION_CLEAR_DEPTH_STENCIL :: sg_pass_action_bits where
  "SG_PASSACTION_CLEAR_DEPTH_STENCIL = push_bit 4 1 OR push_bit 5 1"

definition SG_PASSACTION_CLEAR_ALL :: sg_pass_action_bits where
  "SG_PASSACTION_CLEAR_ALL = SG_PASSACTION_CLEAR_COLOR OR SG_PASSACTION_CLEAR_DEPTH_STENCIL"

definition SG_PASSACTION_LOAD_COLOR0 :: sg_pass_action_bits where
  "SG_PASSACTION_LOAD_COLOR0 = push_bit 6 1"

definition SG_PASSACTION_LOAD_COLOR1 :: sg_pass_action_bits where
  "SG_PASSACTION_LOAD_COLOR1 = push_bit 7 1"

definition SG_PASSACTION_LOAD_COLOR2 :: sg_pass_action_bits where
  "SG_PASSACTION_LOAD_COLOR2 = push_bit 8 1"

definition SG_PASSACTION_LOAD_COLOR3 :: sg_pass_action_bits where
  "SG_PASSACTION_LOAD_COLOR3 = push_bit 9 1"

definition SG_PASSACTION_LOAD_COLOR :: sg_pass_action_bits where
  "SG_PASSACTION_LOAD_COLOR = push_bit 6 1 OR push_bit 7 1 OR push_bit 8 1 OR push_bit 9 1"

definition SG_PASSACTION_LOAD_DEPTH :: sg_pass_action_bits where
  "SG_PASSACTION_LOAD_DEPTH = push_bit 10 1"

definition SG_PASSACTION_LOAD_STENCIL :: sg_pass_action_bits where
  "SG_PASSACTION_LOAD_STENCIL = push_bit 11 1"

definition SG_PASSACTION_LOAD_DEPTH_STENCIL :: sg_pass_action_bits where
  "SG_PASSACTION_LOAD_DEPTH_STENCIL = push_bit 10 1 OR push_bit 11 1"

definition SG_PASSACTION_LOAD_ALL :: sg_pass_action_bits where
  "SG_PASSACTION_LOAD_ALL = SG_PASSACTION_LOAD_COLOR OR SG_PASSACTION_LOAD_DEPTH_STENCIL"

text \<open>
  The six attachments a pass action speaks about, and the two enumerators the header
  gives each of them.
\<close>

datatype attachment = Color0 | Color1 | Color2 | Color3 | Depth | Stencil

fun clear_bit_of :: "attachment \<Rightarrow> sg_pass_action_bits" where
  "clear_bit_of Color0 = SG_PASSACTION_CLEAR_COLOR0"
| "clear_bit_of Color1 = SG_PASSACTION_CLEAR_COLOR1"
| "clear_bit_of Color2 = SG_PASSACTION_CLEAR_COLOR2"
| "clear_bit_of Color3 = SG_PASSACTION_CLEAR_COLOR3"
| "clear_bit_of Depth = SG_PASSACTION_CLEAR_DEPTH"
| "clear_bit_of Stencil = SG_PASSACTION_CLEAR_STENCIL"

fun load_bit_of :: "attachment \<Rightarrow> sg_pass_action_bits" where
  "load_bit_of Color0 = SG_PASSACTION_LOAD_COLOR0"
| "load_bit_of Color1 = SG_PASSACTION_LOAD_COLOR1"
| "load_bit_of Color2 = SG_PASSACTION_LOAD_COLOR2"
| "load_bit_of Color3 = SG_PASSACTION_LOAD_COLOR3"
| "load_bit_of Depth = SG_PASSACTION_LOAD_DEPTH"
| "load_bit_of Stencil = SG_PASSACTION_LOAD_STENCIL"

definition attachments :: "attachment list" where
  "attachments = [Color0, Color1, Color2, Color3, Depth, Stencil]"

text \<open>
  An unset bit means "don't care" (the comment in \<open>sg_pass_action_bits\<close>):
  \<open>dont_care a m\<close> holds when the mask \<open>m\<close> has neither bit of attachment \<open>a\<close>, and
  \<open>make_dont_care a m\<close> takes both bits of \<open>a\<close> out of \<open>m\<close>.
\<close>

definition dont_care :: "attachment \<Rightarrow> sg_pass_action_bits \<Rightarrow> bool" where
  "dont_care a m \<longleftrightarrow> m AND clear_bit_of a = 0 \<and> m AND load_bit_of a = 0"

definition make_dont_care :: "attachment \<Rightarrow> sg_pass_action_bits \<Rightarrow> sg_pass_action_bits" where
  "make_dont_care a m = m AND NOT (clear_bit_of a OR load_bit_of a)"

record sg_pass_action =
  color :: "real list list"
  depth :: real
  stencil :: "8 word"
  actions :: sg_pass_action_bits

definition wf_pass_action :: "sg_pass_action \<Rightarrow> bool" where
  "wf_pass_action pa \<longleftrightarrow>
     length (color pa) = SG_MAX_COLOR_ATTACHMENTS \<and> list_all (\<lambda>row. length row = 4) (color pa)"

text \<open>
  One round of the outer loop of \<open>sg_init_pass_action\<close>: the inner loop stores 0.5 in
  the components 0, 1 and 2 of attachment \<open>att_index\<close>, then component 3 becomes 1.0.
\<close>

definition init_color_attachment :: "nat \<Rightarrow> real list list \<Rightarrow> real list list" where
  "init_color_attachment att_index col =
     (let col1 = fold (\<lambda>c cl. cl[att_index := (cl ! att_index)[c := 0.5]]) [0..<3] col
      in col1[att_index := (col1 ! att_index)[3 := 1.0]])"

definition sg_init_pass_action :: "sg_pass_action option \<Rightarrow> error + sg_pass_action" where
  "sg_init_pass_action pa =
     (case pa of
        None \<Rightarrow> Inl Assertion_failed
      | Some p \<Rightarrow>
          let p1 = p\<lparr>color := fold init_color_attachment [0..<SG_MAX_COLOR_ATTACHMENTS] (color p)\<rparr>;
              p2 = p1\<lparr>depth := 1.0\<rparr>;
              p3 = p2\<lparr>stencil := 0\<rparr>
          in Inr (p3\<lparr>actions := SG_PASSACTION_CLEAR_ALL\<rparr>))"

subsection \<open>The setup descriptor\<close>

record sg_desc =
  width :: int
  height :: int
  sample_count :: int
  resource_pool_size :: "int list"

definition wf_desc :: "sg_desc \<Rightarrow> bool" where
  "wf_desc d \<longleftrightarrow> length (resource_pool_size d) = SG_NUM_RESOURCETYPES"

definition sg_init_desc :: "sg_desc option \<Rightarrow> error + sg_desc" where
  "sg_init_desc desc =
     (case desc of
        None \<Rightarrow> Inl Assertion_failed
      | Some d \<Rightarrow>
          let d1 = d\<lparr>width := 640\<rparr>;
              d2 = d1\<lparr>height := 400\<rparr>;
              d3 = d2\<lparr>sample_count := 1\<rparr>
          in Inr (d3\<lparr>resource_pool_size :=
                      fold (\<lambda>i sz. sz[i := 128]) [0..<SG_NUM_RESOURCETYPES] (resource_pool_size d3)\<rparr>))"

subsection \<open>Buffer descriptors\<close>

datatype sg_buffer_type = SG_BUFFERTYPE_VERTEX_BUFFER | SG_BUFFERTYPE_INDEX_BUFFER

datatype sg_usage = SG_USAGE_IMMUTABLE | SG_USAGE_DYNAMIC | SG_USAGE_STREAM

record sg_buffer_desc =
  buffer_size :: int
  buffer_type :: sg_buffer_type
  usage :: sg_usage
  data_ptr :: "nat option"
  data_size :: int

definition sg_init_buffer_desc :: "sg_buffer_desc option \<Rightarrow> error + sg_buffer_desc" where
  "sg_init_buffer_desc desc =
     (case desc of
        None \<Rightarrow> Inl Assertion_failed
      | Some d \<Rightarrow>
          let d1 = d\<lparr>buffer_size := 0\<rparr>;
              d2 = d1\<lparr>buffer_type := SG_BUFFERTYPE_VERTEX_BUFFER\<rparr>;
              d3 = d2\<lparr>usage := SG_USAGE_IMMUTABLE\<rparr>;
              d4 = d3\<lparr>data_ptr := None\<rparr>
          in Inr (d4\<lparr>data_size := 0\<rparr>))"

text \<open>
  Modelled from the spec: \<open>sg_update_buffer\<close> is only declared in the header. The
  specification permits update operations "only for resources created with a mutable
  usage (dynamic/stream)"; on an immutable resource they are a usage violation.
\<close>

definition update_permitted :: "sg_usage \<Rightarrow> bool" where
  "update_permitted u \<longleftrightarrow> u = SG_USAGE_DYNAMIC \<or> u = SG_USAGE_STREAM"

subsection \<open>Render state enumerations and structs\<close>

datatype sg_image_type =
    SG_IMAGETYPE_INVALID
  | SG_IMAGETYPE_2D
  | SG_IMAGETYPE_CUBE
  | SG_IMAGETYPE_3D
  | SG_IMAGETYPE_ARRAY

datatype sg_vertex_format =
    SG_VERTEXFORMAT_INVALID
  | SG_VERTEXFORMAT_FLOAT
  | SG_VERTEXFORMAT_FLOAT2
  | SG_VERTEXFORMAT_FLOAT3
  | SG_VERTEXFORMAT_FLOAT4
  | SG_VERTEXFORMAT_BYTE4
  | SG_VERTEXFORMAT_BYTE4N
  | SG_VERTEXFORMAT_UBYTE4
  | SG_VERTEXFORMAT_UBYTE4N
  | SG_VERTEXFORMAT_SHORT2
  | SG_VERTEXFORMAT_SHORT2N
  | SG_VERTEXFORMAT_SHORT4
  | SG_VERTEXFORMAT_SHORT4N
  | SG_VERTEXFORMAT_UINT10_N2

datatype sg_uniform_type =
    SG_UNIFORMTYPE_INVALID
  | SG_UNIFORMTYPE_FLOAT
  | SG_UNIFORMTYPE_FLOAT2
  | SG_UNIFORMTYPE_FLOAT3
  | SG_UNIFORMTYPE_FLOAT4
  | SG_UNIFORMTYPE_MAT4

datatype sg_face = SG_FACE_FRONT | SG_FACE_BACK | SG_FACE_BOTH

datatype sg_compare_func =
    SG_COMPAREFUNC_NEVER
  | SG_COMPAREFUNC_LESS
  | SG_COMPAREFUNC_EQUAL
  | SG_COMPAREFUNC_LESS_EQUAL
  | SG_COMPAREFUNC_GREATER
  | SG_COMPAREFUNC_NOT_EQUAL
  | SG_COMPAREFUNC_GREATER_EQUAL
  | SG_COMPAREFUNC_ALWAYS

datatype sg_stencil_op =
    SG_STENCILOP_KEEP
  | SG_STENCILOP_ZERO
  | SG_STENCILOP_REPLACE
  | SG_STENCILOP_INCR_CLAMP
  | SG_STENCILOP_DECR_CLAMP
  | SG_STENCILOP_INVERT
  | SG_STENCILOP_INCR_WRAP
  | SG_STENCILOP_DECR_WRAP

datatype sg_blend_factor =
    SG_BLENDFACTOR_ZERO
  | SG_BLENDFACTOR_ONE
  | SG_BLENDFACTOR_SRC_COLOR
  | SG_BLENDFACTOR_ONE_MINUS_SRC_COLOR
  | SG_BLENDFACTOR_SRC_ALPHA
  | SG_BLENDFACTOR_ONE_MINUS_SRC_ALPHA
  | SG_BLENDFACTOR_DST_COLOR
  | SG_BLENDFACTOR_ONE_MINUS_DST_COLOR
  | SG_BLENDFACTOR_DST_ALPHA
  | SG_BLENDFACTOR_ONE_MINUS_DST_ALPHA
  | SG_BLENDFACTOR_SRC_ALPHA_SATURATED
  | SG_BLENDFACTOR_BLEND_COLOR
  | SG_BLENDFACTOR_ONE_MINUS_BLEND_COLOR
  | SG_BLENDFACTOR_BLEND_ALPHA
  | SG_BLENDFACTOR_ONE_MINUS_BLEND_ALPHA

datatype sg_blend_op = SG_BLENDOP_ADD | SG_BLENDOP_SUBTRACT | SG_BLENDOP_REVERSE_SUBTRACT

datatype sg_step_func = SG_STEPFUNC_PER_VERTEX | SG_STEPFUNC_PER_INSTANCE

definition SG_COLORMASK_RGBA :: "8 word" where
  "SG_COLORMASK_RGBA = 0xF"

record sg_stencil_state =
  fail_op :: sg_stencil_op
  depth_fail_op :: sg_stencil_op
  pass_op :: sg_stencil_op
  compare_func :: sg_compare_func

record sg_depth_stencil_state =
  stencil_front :: sg_stencil_state
  stencil_back :: sg_stencil_state
  depth_compare_func :: sg_compare_func
  depth_write_enabled :: bool
  stencil_enabled :: bool
  stencil_read_mask :: "8 word"
  stencil_write_mask :: "8 word"
  stencil_ref :: "8 word"

record sg_blend_state =
  enabled :: bool
  src_factor_rgb :: sg_blend_factor
  dst_factor_rgb :: sg_blend_factor
  op_rgb :: sg_blend_op
  src_factor_alpha :: sg_blend_factor
  dst_factor_alpha :: sg_blend_factor
  op_alpha :: sg_blend_op
  color_write_mask :: "8 word"
  blend_color :: "real list"

record sg_rasterizer_state =
  cull_face_enabled :: bool
  scissor_test_enabled :: bool
  dither_enabled :: bool
  alpha_to_coverage_enabled :: bool
  cull_face :: sg_face

record sg_vertex_attr =
  name :: "string option"
  format :: sg_vertex_format

subsection \<open>Shader descriptors\<close>

record sg_shader_uniform_desc =
  uniform_name :: "string option"
  uniform_type :: sg_uniform_type
  offset :: int
  array_size :: int

record sg_shader_uniform_block_desc =
  num_uniforms :: int
  uniforms :: "sg_shader_uniform_desc list"

record sg_shader_image_desc =
  image_name :: "string option"
  image_type :: sg_image_type

record sg_shader_stage_desc =
  source :: "string option"
  num_uniform_blocks :: int
  num_textures :: int
  uniform_blocks :: "sg_shader_uniform_block_desc list"
  images :: "sg_shader_image_desc list"

record sg_shader_desc =
  vs :: sg_shader_stage_desc
  fs :: sg_shader_stage_desc
  shader_num_attrs :: int
  shader_attrs :: "sg_vertex_attr list"

definition wf_shader_stage_desc :: "sg_shader_stage_desc \<Rightarrow> bool" where
  "wf_shader_stage_desc sd \<longleftrightarrow>
     length (uniform_blocks sd) = SG_MAX_SHADERSTAGE_UBS \<and>
     list_all (\<lambda>ub. length (uniforms ub) = SG_MAX_UNIFORMS) (uniform_blocks sd) \<and>
     length (images sd) = SG_MAX_SHADERSTAGE_IMAGES"

definition wf_shader_desc :: "sg_shader_desc \<Rightarrow> bool" where
  "wf_shader_desc d \<longleftrightarrow>
     wf_shader_stage_desc (vs d) \<and> wf_shader_stage_desc (fs d) \<and>
     length (shader_attrs d) = SG_MAX_VERTEX_ATTRIBUTES"

text \<open>
  The static helpers of the header are only called on the address of a field or of an
  array element, which is never null: they take the struct itself and their pointer
  assertion cannot fail.
\<close>

definition init_uniform_desc :: "sg_shader_uniform_desc \<Rightarrow> sg_shader_uniform_desc" where
  "init_uniform_desc u =
     (let u1 = u\<lparr>uniform_name := None\<rparr>;
          u2 = u1\<lparr>uniform_type := SG_UNIFORMTYPE_INVALID\<rparr>;
          u3 = u2\<lparr>offset := 0\<rparr>
      in u3\<lparr>array_size := 1\<rparr>)"

definition init_uniform_block_desc :: "sg_shader_uniform_block_desc \<Rightarrow> sg_shader_uniform_block_desc" where
  "init_uniform_block_desc ub =
     (let ub1 = ub\<lparr>num_uniforms := 0\<rparr>
      in ub1\<lparr>uniforms :=
               fold (\<lambda>u_index us. us[u_index := init_uniform_desc (us ! u_index)])
                 [0..<SG_MAX_UNIFORMS] (uniforms ub1)\<rparr>)"

definition init_image_desc :: "sg_shader_image_desc \<Rightarrow> sg_shader_image_desc" where
  "init_image_desc img = (let img1 = img\<lparr>image_name := None\<rparr> in img1\<lparr>image_type := SG_IMAGETYPE_INVALID\<rparr>)"

definition sg_init_shader_stage_desc :: "sg_shader_stage_desc \<Rightarrow> sg_shader_stage_desc" where
  "sg_init_shader_stage_desc desc =
     (let d1 = desc\<lparr>source := None\<rparr>;
          d2 = d1\<lparr>num_uniform_blocks := 0\<rparr>;
          d3 = d2\<lparr>num_textures := 0\<rparr>;
          d4 = d3\<lparr>uniform_blocks :=
                    fold (\<lambda>ub_index ubs. ubs[ub_index := init_uniform_block_desc (ubs ! ub_index)])
                      [0..<SG_MAX_SHADERSTAGE_UBS] (uniform_blocks d3)\<rparr>
      in d4\<lparr>images :=
               fold (\<lambda>img_index imgs. imgs[img_index := init_image_desc (imgs ! img_index)])
                 [0..<SG_MAX_SHADERSTAGE_IMAGES] (images d4)\<rparr>)"

definition clear_vertex_attr :: "sg_vertex_attr \<Rightarrow> sg_vertex_attr" where
  "clear_vertex_attr attr = (let a1 = attr\<lparr>name := None\<rparr> in a1\<lparr>format := SG_VERTEXFORMAT_INVALID\<rparr>)"

definition sg_init_shader_desc :: "sg_shader_desc option \<Rightarrow> error + sg_shader_desc" where
  "sg_init_shader_desc desc =
     (case desc of
        None \<Rightarrow> Inl Assertion_failed
      | Some d \<Rightarrow>
          let d1 = d\<lparr>vs := sg_init_shader_stage_desc (vs d)\<rparr>;
              d2 = d1\<lparr>fs := sg_init_shader_stage_desc (fs d1)\<rparr>;
              d3 = d2\<lparr>shader_num_attrs := 0\<rparr>
          in Inr (d3\<lparr>shader_attrs :=
                      fold (\<lambda>i as. as[i := clear_vertex_attr (as ! i)])
                        [0..<SG_MAX_VERTEX_ATTRIBUTES] (shader_attrs d3)\<rparr>))"

text \<open>
  \<open>sg_shader_desc_attr\<close>: two assertions, then the attribute slot \<open>attrs[num_attrs++]\<close>
  is taken and written through the pointer \<open>attr\<close>.
\<close>

definition sg_shader_desc_attr ::
    "sg_shader_desc option \<Rightarrow> string option \<Rightarrow> sg_vertex_format \<Rightarrow> error + sg_shader_desc" where
  "sg_shader_desc_attr desc nm fmt =
     (case desc of
        None \<Rightarrow> Inl Assertion_failed
      | Some d \<Rightarrow>
          if \<not> (nm \<noteq> None \<and> fmt \<noteq> SG_VERTEXFORMAT_INVALID) then Inl Assertion_failed
          else if \<not> (shader_num_attrs d < int SG_MAX_VERTEX_ATTRIBUTES) then Inl Assertion_failed
          else
            let i = shader_num_attrs d;
                d1 = d\<lparr>shader_num_attrs := i + 1\<rparr>
            in if i < 0 then Inl Out_of_bounds
               else
                 let d2 = d1\<lparr>shader_attrs :=
                            (shader_attrs d1)[nat i := (shader_attrs d1 ! nat i)\<lparr>name := nm\<rparr>]\<rparr>
                 in Inr (d2\<lparr>shader_attrs :=
                            (shader_attrs d2)[nat i := (shader_attrs d2 ! nat i)\<lparr>format := fmt\<rparr>]\<rparr>))"

subsection \<open>Pipeline descriptors\<close>

record sg_vertex_layout =
  num_attrs :: int
  attrs :: "sg_vertex_attr list"
  step_func :: sg_step_func
  step_rate :: int

record sg_pipeline_desc =
  shader :: sg_id
  layouts :: "sg_vertex_layout list"
  depth_stencil :: sg_depth_stencil_state
  blend :: sg_blend_state
  rast :: sg_rasterizer_state

definition wf_pipeline_desc :: "sg_pipeline_desc \<Rightarrow> bool" where
  "wf_pipeline_desc d \<longleftrightarrow>
     length (layouts d) = SG_MAX_SHADERSTAGE_BUFFERS \<and>
     list_all (\<lambda>l. length (attrs l) = SG_MAX_VERTEX_ATTRIBUTES) (layouts d) \<and>
     length (blend_color (blend d)) = 4"

definition sg_init_vertex_layout :: "sg_vertex_layout \<Rightarrow> sg_vertex_layout" where
  "sg_init_vertex_layout l =
     (let l1 = l\<lparr>step_func := SG_STEPFUNC_PER_VERTEX\<rparr>;
          l2 = l1\<lparr>step_rate := 1\<rparr>;
          l3 = l2\<lparr>num_attrs := 0\<rparr>
      in l3\<lparr>attrs :=
               fold (\<lambda>i as. let as1 = as[i := (as ! i)\<lparr>name := None\<rparr>]
                             in as1[i := (as1 ! i)\<lparr>format := SG_VERTEXFORMAT_INVALID\<rparr>])
                 [0..<SG_MAX_VERTEX_ATTRIBUTES] (attrs l3)\<rparr>)"

definition sg_init_stencil_state :: "sg_stencil_state \<Rightarrow> sg_stencil_state" where
  "sg_init_stencil_state s =
     (let s1 = s\<lparr>fail_op := SG_STENCILOP_KEEP\<rparr>;
          s2 = s1\<lparr>depth_fail_op := SG_STENCILOP_KEEP\<rparr>;
          s3 = s2\<lparr>pass_op := SG_STENCILOP_KEEP\<rparr>
      in s3\<lparr>compare_func := SG_COMPAREFUNC_ALWAYS\<rparr>)"

definition sg_init_depth_stencil_state :: "sg_depth_stencil_state \<Rightarrow> sg_depth_stencil_state" where
  "sg_init_depth_stencil_state s =
     (let s1 = s\<lparr>stencil_front := sg_init_stencil_state (stencil_front s)\<rparr>;
          s2 = s1\<lparr>stencil_back := sg_init_stencil_state (stencil_back s1)\<rparr>;
          s3 = s2\<lparr>depth_compare_func := SG_COMPAREFUNC_ALWAYS\<rparr>;
          s4 = s3\<lparr>depth_write_enabled := False\<rparr>;
          s5 = s4\<lparr>stencil_enabled := False\<rparr>;
          s6 = s5\<lparr>stencil_read_mask := 0xFF\<rparr>;
          s7 = s6\<lparr>stencil_write_mask := 0xFF\<rparr>
      in s7\<lparr>stencil_ref := 0\<rparr>)"

definition sg_init_blend_state :: "sg_blend_state \<Rightarrow> sg_blend_state" where
  "sg_init_blend_state s =
     (let s1 = s\<lparr>enabled := False\<rparr>;
          s2 = s1\<lparr>src_factor_rgb := SG_BLENDFACTOR_ONE\<rparr>;
          s3 = s2\<lparr>dst_factor_rgb := SG_BLENDFACTOR_ZERO\<rparr>;
          s4 = s3\<lparr>op_rgb := SG_BLENDOP_ADD\<rparr>;
          s5 = s4\<lparr>src_factor_alpha := SG_BLENDFACTOR_ONE\<rparr>;
          s6 = s5\<lparr>dst_factor_alpha := SG_BLENDFACTOR_ZERO\<rparr>;
          s7 = s6\<lparr>op_alpha := SG_BLENDOP_ADD\<rparr>;
          s8 = s7\<lparr>color_write_mask := SG_COLORMASK_RGBA\<rparr>
      in s8\<lparr>blend_color := fold (\<lambda>i bc. bc[i := 1.0]) [0..<4] (blend_color s8)\<rparr>)"

definition sg_init_rasterizer_state :: "sg_rasterizer_state \<Rightarrow> sg_rasterizer_state" where
  "sg_init_rasterizer_state s =
     (let s1 = s\<lparr>cull_face_enabled := False\<rparr>;
          s2 = s1\<lparr>scissor_test_enabled := False\<rparr>;
          s3 = s2\<lparr>dither_enabled := True\<rparr>;
          s4 = s3\<lparr>alpha_to_coverage_enabled := False\<rparr>
      in s4\<lparr>cull_face := SG_FACE_BACK\<rparr>)"

definition sg_init_pipeline_desc :: "sg_pipeline_desc option \<Rightarrow> error + sg_pipeline_desc" where
  "sg_init_pipeline_desc desc =
     (case desc of
        None \<Rightarrow> Inl Assertion_failed
      | Some d \<Rightarrow>
          let d1 = d\<lparr>shader := SG_INVALID_ID\<rparr>;
              d2 = d1\<lparr>layouts :=
                        fold (\<lambda>i ls. ls[i := sg_init_vertex_layout (ls ! i)])
                          [0..<SG_MAX_SHADERSTAGE_BUFFERS] (layouts d1)\<rparr>;
              d3 = d2\<lparr>depth_stencil := sg_init_depth_stencil_state (depth_stencil d2)\<rparr>;
              d4 = d3\<lparr>blend := sg_init_blend_state (blend d3)\<rparr>
          in Inr (d4\<lparr>rast := sg_init_rasterizer_state (rast d4)\<rparr>))"

text \<open>
  \<open>sg_pipeline_desc_attr\<close>: five assertions, then \<open>l\<close> points at \<open>layouts[slot]\<close>,
  \<open>attr\<close> at \<open>l->attrs[l->num_attrs++]\<close>, and the two fields of \<open>attr\<close> are written.
  The assertion on the slot is checked before \<open>layouts[slot]\<close> is read.
\<close>

definition sg_pipeline_desc_attr ::
    "sg_pipeline_desc option \<Rightarrow> int \<Rightarrow> string option \<Rightarrow> sg_vertex_format \<Rightarrow> error + sg_pipeline_desc" where
  "sg_pipeline_desc_attr desc slot nm fmt =
     (case desc of
        None \<Rightarrow> Inl Assertion_failed
      | Some d \<Rightarrow>
          if \<not> (slot \<ge> 0 \<and> slot < int SG_MAX_SHADERSTAGE_BUFFERS) then Inl Assertion_failed
          else if nm = None then Inl Assertion_failed
          else if \<not> (fmt \<noteq> SG_VERTEXFORMAT_INVALID) then Inl Assertion_failed
          else if \<not> (num_attrs (layouts d ! nat slot) < int SG_MAX_VERTEX_ATTRIBUTES)
            then Inl Assertion_failed
          else
            let l = layouts d ! nat slot;
                i = num_attrs l;
                l1 = l\<lparr>num_attrs := i + 1\<rparr>
            in if i < 0 then Inl Out_of_bounds
               else
                 let l2 = l1\<lparr>attrs := (attrs l1)[nat i := (attrs l1 ! nat i)\<lparr>name := nm\<rparr>]\<rparr>;
                     l3 = l2\<lparr>attrs := (attrs l2)[nat i := (attrs l2 ! nat i)\<lparr>format := fmt\<rparr>]\<rparr>
                 in Inr (d\<lparr>layouts := (layouts d)[nat slot := l3]\<rparr>))"

section \<open>Resource pools, from the specification\<close>

text \<open>
  The header only declares the resource functions (\<open>sg_alloc_buffer\<close>, \<open>sg_init_buffer\<close>,
  \<open>sg_make_buffer\<close>, \<open>sg_destroy_buffer\<close> and their siblings for the other four resource
  types); the implementation file it includes at its end is not among the sources. The
  handle allocator and the resource pool are therefore written down from sections 3, 4.1,
  4.2 and 4.3 of the specification. One pool serves one resource type; its payload type
  \<open>'a\<close> stands for the native object the backend keeps for a resource, and \<open>'w\<close> for
  the number of bits a handle has for the generation of a slot.
\<close>

text \<open>
  Modelled from the spec: the handle returned by the missing \<open>sg_alloc_*\<close> and
  \<open>sg_make_*\<close> functions. A handle is an "opaque 32-bit value" (the header's
  \<open>typedef uint32_t sg_id\<close>), "composed of a slot index and a generation counter", and
  0 is reserved as the invalid sentinel. The specification does not say how the two
  parts are packed into the 32 bits, so a handle is the pair itself, and
  \<open>Invalid_handle\<close> stands for the id 0 (\<open>SG_INVALID_ID\<close>), which no pair is packed
  into. The generation has the type \<open>'g\<close>, which every operation below takes as a
  machine word \<open>'w word\<close>: the generation occupies \<open>'w\<close> of the 32 bits, whatever
  number \<open>'w\<close> the packing leaves it, and counts modulo \<open>2 ^ LENGTH('w)\<close>. The slot
  index of a valid handle is below the capacity of its pool.
\<close>

datatype 'g handle = Invalid_handle | Handle (slot_index: nat) (generation: 'g)

text \<open>
  Modelled from the spec: the slot of the missing pool implementation, with "state tag,
  generation counter, category-specific payload (present only when state = valid)". The
  generation counter is the "monotonically incrementing tag" of the glossary, kept in
  the width that a handle has for it.
\<close>

record ('g, 'a) slot =
  slot_state :: sg_resource_state
  slot_gen :: 'g
  slot_payload :: "'a option"

text \<open>
  Modelled from the spec: the pool of the missing implementation, a "fixed-capacity
  ordered collection of slots" that "maintains a free-list of unoccupied slot indices".
\<close>

record ('g, 'a) pool =
  slots :: "('g, 'a) slot list"
  free_list :: "nat list"

text \<open>
  Modelled from the spec: the pool the missing \<open>sg_setup\<close> creates, "sized at setup time
  from configuration": \<open>n\<close> slots in the initial state, every index free. The
  specification leaves the first generation open; it is 0 here. The properties below
  hold for every capacity \<open>n\<close> and every width \<open>'w\<close> of the generation, so also for
  those that fit the 32 bits of a handle together.
\<close>

definition setup_pool :: "nat \<Rightarrow> ('w::len word, 'a) pool" where
  "setup_pool n =
     \<lparr>slots = replicate n \<lparr>slot_state = SG_RESOURCESTATE_INITIAL, slot_gen = 0, slot_payload = None\<rparr>,
      free_list = [0..<n]\<rparr>"

text \<open>
  Modelled from the spec: \<open>allocate()\<close> of the missing handle allocator (section 4.1),
  which "pops a free slot index (or fails if none remain), marks the slot allocated,
  returns a handle = (index, current generation)"; "pool exhaustion yields the invalid
  sentinel handle (0)".
\<close>

definition allocate ::
    "('w::len word, 'a) pool \<Rightarrow> 'w word handle \<times> ('w word, 'a) pool" where
  "allocate p =
     (case free_list p of
        [] \<Rightarrow> (Invalid_handle, p)
      | i # rest \<Rightarrow>
          (Handle i (slot_gen (slots p ! i)),
           p\<lparr>slots := (slots p)[i := (slots p ! i)\<lparr>slot_state := SG_RESOURCESTATE_ALLOC\<rparr>],
             free_list := rest\<rparr>))"

text \<open>
  Modelled from the spec: the validity check of the missing implementation (section 3):
  "a handle is valid iff its slot index is in range, the slot is occupied (state \<noteq>
  initial), and the handle's embedded generation equals the slot's current generation".
\<close>

definition handle_valid :: "'w::len word handle \<Rightarrow> ('w word, 'a) pool \<Rightarrow> bool" where
  "handle_valid h p =
     (case h of
        Invalid_handle \<Rightarrow> False
      | Handle i g \<Rightarrow>
          i < length (slots p) \<and>
          slot_state (slots p ! i) \<noteq> SG_RESOURCESTATE_INITIAL \<and>
          slot_gen (slots p ! i) = g)"

text \<open>
  Modelled from the spec: \<open>release(handle)\<close> of the missing handle allocator (section
  4.1), which "validates the handle against current slot generation; no-op if already
  invalid or slot already initial; otherwise transitions slot to initial, increments its
  generation, and pushes the index back onto the free-list". The increment is the one
  of a machine word: after the greatest generation comes 0 again.
\<close>

definition release :: "'w::len word handle \<Rightarrow> ('w word, 'a) pool \<Rightarrow> ('w word, 'a) pool" where
  "release h p =
     (if \<not> handle_valid h p then p
      else
        let i = slot_index h; s = slots p ! i
        in p\<lparr>slots := (slots p)[i := s\<lparr>slot_state := SG_RESOURCESTATE_INITIAL,
                                          slot_gen := slot_gen s + 1\<rparr>],
             free_list := i # free_list p\<rparr>)"

text \<open>
  Modelled from the spec: \<open>destroy(handle)\<close> of the missing pool (section 4.2, the
  \<open>sg_destroy_*\<close> functions): "no-op for an invalid or already-initial handle; otherwise
  releases the backend-held native object (external call) and runs release on the Handle
  Allocator". Releasing the native object empties the payload of the slot.
\<close>

definition destroy :: "'w::len word handle \<Rightarrow> ('w word, 'a) pool \<Rightarrow> ('w word, 'a) pool" where
  "destroy h p =
     (if \<not> handle_valid h p then p
      else
        let i = slot_index h
        in release h (p\<lparr>slots := (slots p)[i := (slots p ! i)\<lparr>slot_payload := None\<rparr>]\<rparr>))"

text \<open>
  Modelled from the spec: \<open>init(handle, descriptor)\<close> of the missing pool (section 4.2,
  the \<open>sg_init_*\<close> functions). The validation of the descriptor and the backend are
  outside the pool: their joint outcome is the argument \<open>r\<close>, the payload of the native
  object on acceptance, \<open>None\<close> "on rejection or backend failure". On acceptance the
  pool "stores the resulting payload, setting the slot valid"; otherwise it "sets the
  slot failed and stores no payload". In the state machine of section 4.3 both are
  transitions out of the allocated state; a handle that is not valid, or whose slot is
  not in the allocated state, leaves the pool as it is.
\<close>

definition init ::
    "'w::len word handle \<Rightarrow> 'a option \<Rightarrow> ('w word, 'a) pool \<Rightarrow> ('w word, 'a) pool" where
  "init h r p =
     (if \<not> handle_valid h p then p
      else
        let i = slot_index h; s = slots p ! i
        in if slot_state s \<noteq> SG_RESOURCESTATE_ALLOC then p
           else
             (case r of
                Some x \<Rightarrow>
                  p\<lparr>slots := (slots p)[i := s\<lparr>slot_state := SG_RESOURCESTATE_VALID,
                                                  slot_payload := Some x\<rparr>]\<rparr>
              | None \<Rightarrow>
                  p\<lparr>slots := (slots p)[i := s\<lparr>slot_state := SG_RESOURCESTATE_FAILED,
                                                 slot_payload := None\<rparr>]\<rparr>))"

text \<open>
  Modelled from the spec: \<open>create(descriptor)\<close> of the missing pool (section 4.2, the
  \<open>sg_make_*\<close> functions), which "performs allocate() then init() as one logical step;
  always returns a handle".
\<close>

definition create ::
    "'a option \<Rightarrow> ('w::len word, 'a) pool \<Rightarrow> 'w word handle \<times> ('w word, 'a) pool" where
  "create r p = (case allocate p of (h, p') \<Rightarrow> (h, init h r p'))"

text \<open>
  Modelled from the spec: \<open>lookup(handle)\<close> of the missing pool (section 4.2), which
  returns an optional payload and "must re-check the generation, not merely bounds".
\<close>

definition lookup :: "'w::len word handle \<Rightarrow> ('w word, 'a) pool \<Rightarrow> 'a option" where
  "lookup h p = (if handle_valid h p then slot_payload (slots p ! slot_index h) else None)"

text \<open>
  The operations that change a pool, as commands: \<open>run cs (setup_pool n)\<close> is the pool
  that the command sequence \<open>cs\<close> reaches from setup. \<open>create\<close> is the command \<open>Alloc\<close>
  followed by \<open>Init\<close>.
\<close>

datatype ('g, 'a) command = Alloc | Init "'g handle" "'a option" | Destroy "'g handle"

fun exec :: "('w::len word, 'a) command \<Rightarrow> ('w word, 'a) pool \<Rightarrow> ('w word, 'a) pool" where
  "exec Alloc p = snd (allocate p)"
| "exec (Init h r) p = init h r p"
| "exec (Destroy h) p = destroy h p"

definition run ::
    "('w::len word, 'a) command list \<Rightarrow> ('w word, 'a) pool \<Rightarrow> ('w word, 'a) pool" where
  "run cs p = fold exec cs p"

text \<open>
  \<open>destroys_of i cs p\<close> counts the commands of the run \<open>cs\<close> from \<open>p\<close> that destroy a
  valid handle of slot \<open>i\<close>: the destroy transitions of that slot.
\<close>

fun destroys_of :: "nat \<Rightarrow> ('w::len word, 'a) command list \<Rightarrow> ('w word, 'a) pool \<Rightarrow> nat" where
  "destroys_of i [] p = 0"
| "destroys_of i (c # cs) p =
     (case c of
        Destroy k \<Rightarrow> if handle_valid k p \<and> slot_index k = i then 1 else 0
      | _ \<Rightarrow> 0) + destroys_of i cs (exec c p)"

text \<open>\<open>alloc_n k\<close> allocates \<open>k\<close> times in a row and collects the handles.\<close>

fun alloc_n ::
    "nat \<Rightarrow> ('w::len word, 'a) pool \<Rightarrow> 'w word handle list \<times> ('w word, 'a) pool" where
  "alloc_n 0 p = ([], p)"
| "alloc_n (Suc k) p =
     (case allocate p of (h, p') \<Rightarrow> (case alloc_n k p' of (hs, q) \<Rightarrow> (h # hs, q)))"

text \<open>The number of occupied slots.\<close>

definition live_count :: "('g, 'a) pool \<Rightarrow> nat" where
  "live_count p = length (filter (\<lambda>s. slot_state s \<noteq> SG_RESOURCESTATE_INITIAL) (slots p))"

text \<open>
  The invariant of the free-list: it lists, without repetition, exactly the slots in the
  initial state.
\<close>

definition pool_inv :: "('g, 'a) pool \<Rightarrow> bool" where
  "pool_inv p \<longleftrightarrow>
     distinct (free_list p) \<and>
     (\<forall>i \<in> set (free_list p). i < length (slots p)) \<and>
     (\<forall>i < length (slots p).
        (i \<in> set (free_list p)) = (slot_state (slots p ! i) = SG_RESOURCESTATE_INITIAL))"

section \<open>Reference values\<close>

text \<open>
  Concrete values for the examples below: a zero-filled pass action, the contents the
  initialisers of the header give a pipeline and a shader descriptor, a shader and
  a pipeline descriptor whose attribute arrays are full, and a pipeline descriptor
  whose layouts carry the attribute count -1, a value of C's \<open>int\<close>.
\<close>

definition zeroed_pass_action :: sg_pass_action where
  "zeroed_pass_action =
     \<lparr>color = [[0, 0, 0, 0], [0, 0, 0, 0], [0, 0, 0, 0], [0, 0, 0, 0]],
      depth = 0, stencil = 0, actions = 0\<rparr>"

definition default_vertex_layout :: sg_vertex_layout where
  "default_vertex_layout =
     \<lparr>num_attrs = 0,
      attrs = replicate 16 \<lparr>name = None, format = SG_VERTEXFORMAT_INVALID\<rparr>,
      step_func = SG_STEPFUNC_PER_VERTEX, step_rate = 1\<rparr>"

definition default_stencil_state :: sg_stencil_state where
  "default_stencil_state =
     \<lparr>fail_op = SG_STENCILOP_KEEP, depth_fail_op = SG_STENCILOP_KEEP,
      pass_op = SG_STENCILOP_KEEP, compare_func = SG_COMPAREFUNC_ALWAYS\<rparr>"

definition default_depth_stencil_state :: sg_depth_stencil_state where
  "default_depth_stencil_state =
     \<lparr>stencil_front = default_stencil_state, stencil_back = default_stencil_state,
      depth_compare_func = SG_COMPAREFUNC_ALWAYS, depth_write_enabled = False,
      stencil_enabled = False, stencil_read_mask = 0xFF, stencil_write_mask = 0xFF,
      stencil_ref = 0\<rparr>"

definition default_blend_state :: sg_blend_state where
  "default_blend_state =
     \<lparr>enabled = False, src_factor_rgb = SG_BLENDFACTOR_ONE,
      dst_factor_rgb = SG_BLENDFACTOR_ZERO, op_rgb = SG_BLENDOP_ADD,
      src_factor_alpha = SG_BLENDFACTOR_ONE, dst_factor_alpha = SG_BLENDFACTOR_ZERO,
      op_alpha = SG_BLENDOP_ADD, color_write_mask = 0xF, blend_color = [1, 1, 1, 1]\<rparr>"

definition default_rasterizer_state :: sg_rasterizer_state where
  "default_rasterizer_state =
     \<lparr>cull_face_enabled = False, scissor_test_enabled = False, dither_enabled = True,
      alpha_to_coverage_enabled = False, cull_face = SG_FACE_BACK\<rparr>"

definition default_pipeline_desc :: sg_pipeline_desc where
  "default_pipeline_desc =
     \<lparr>shader = 0,
      layouts = replicate 4 default_vertex_layout,
      depth_stencil = default_depth_stencil_state,
      blend = default_blend_state,
      rast = default_rasterizer_state\<rparr>"

definition default_shader_stage_desc :: sg_shader_stage_desc where
  "default_shader_stage_desc =
     \<lparr>source = None, num_uniform_blocks = 0, num_textures = 0,
      uniform_blocks =
        replicate 4
          \<lparr>num_uniforms = 0,
           uniforms =
             replicate 16
               \<lparr>uniform_name = None, uniform_type = SG_UNIFORMTYPE_INVALID,
                offset = 0, array_size = 1\<rparr>\<rparr>,
      images = replicate 12 \<lparr>image_name = None, image_type = SG_IMAGETYPE_INVALID\<rparr>\<rparr>"

definition default_shader_desc :: sg_shader_desc where
  "default_shader_desc =
     \<lparr>vs = default_shader_stage_desc, fs = default_shader_stage_desc,
      shader_num_attrs = 0,
      shader_attrs = replicate 16 \<lparr>name = None, format = SG_VERTEXFORMAT_INVALID\<rparr>\<rparr>"

definition full_attrs :: "sg_vertex_attr list" where
  "full_attrs = replicate 16 \<lparr>name = Some ''attr'', format = SG_VERTEXFORMAT_FLOAT4\<rparr>"

definition full_shader_desc :: sg_shader_desc where
  "full_shader_desc = default_shader_desc\<lparr>shader_num_attrs := 16, shader_attrs := full_attrs\<rparr>"

definition full_pipeline_desc :: sg_pipeline_desc where
  "full_pipeline_desc =
     default_pipeline_desc
       \<lparr>layouts := replicate 4 (default_vertex_layout\<lparr>num_attrs := 16, attrs := full_attrs\<rparr>)\<rparr>"

definition negative_count_pipeline_desc :: sg_pipeline_desc where
  "negative_count_pipeline_desc =
     default_pipeline_desc\<lparr>layouts := replicate 4 (default_vertex_layout\<lparr>num_attrs := - 1\<rparr>)\<rparr>"

text \<open>
  Pools of the model above, with 16 bits for the generation and natural numbers as
  payloads: a pool of capacity 1 after one allocation and after the initialisation that
  follows it, a fresh pool of capacity 2, and the pool of capacity 2 after two
  allocations. \<open>allocated_pool g\<close> is the pool of capacity 1 whose slot is allocated at
  generation \<open>g\<close>, and \<open>reuse_cycle k\<close> destroys the occupant of generation \<open>k\<close> of slot
  0 and allocates the slot again.
\<close>

definition one_slot_pool :: "(16 word, nat) pool" where
  "one_slot_pool = run [Alloc] (setup_pool 1)"

definition valid_slot_pool :: "(16 word, nat) pool" where
  "valid_slot_pool = run [Alloc, Init (Handle 0 0) (Some 5)] (setup_pool 1)"

definition two_slot_pool :: "(16 word, nat) pool" where
  "two_slot_pool = setup_pool 2"

definition full_two_slot_pool :: "(16 word, nat) pool" where
  "full_two_slot_pool =
     \<lparr>slots = [\<lparr>slot_state = SG_RESOURCESTATE_ALLOC, slot_gen = 0, slot_payload = None\<rparr>,
               \<lparr>slot_state = SG_RESOURCESTATE_ALLOC, slot_gen = 0, slot_payload = None\<rparr>],
      free_list = []\<rparr>"

definition allocated_pool :: "'w::len word \<Rightarrow> ('w word, 'a) pool" where
  "allocated_pool g =
     \<lparr>slots = [\<lparr>slot_state = SG_RESOURCESTATE_ALLOC, slot_gen = g, slot_payload = None\<rparr>],
      free_list = []\<rparr>"

definition reuse_cycle :: "nat \<Rightarrow> (16 word, nat) command list" where
  "reuse_cycle k = [Destroy (Handle 0 (of_nat k)), Alloc]"

section \<open>Properties of the header\<close>

subsection \<open>Auxiliary facts on lists and words\<close>

lemma length4_cases: "length (xs::'a list) = 4 \<Longrightarrow> \<exists>a b c d. xs = [a,b,c,d]"
  by (cases xs; simp; cases "tl xs"; simp; cases "tl (tl xs)"; simp; cases "tl (tl (tl xs))"; simp)

lemma upt_0_3: "[0..<3] = [0,1,2]"
  by (simp add: upt_rec)

lemma upt_0_4: "[0..<4] = [0,1,2,3]"
  by (simp add: upt_rec)

lemma upt_0_5: "[0..<5] = [0,1,2,3,4]"
  by (simp add: upt_rec)

lemma fold_update_each:
  "n \<le> length xs \<Longrightarrow>
   fold (\<lambda>i ys. ys[i := f (ys ! i)]) [0..<n] xs = map f (take n xs) @ drop n xs"
proof (induction n)
  case 0
  then show ?case by simp
next
  case (Suc n)
  then have n: "n < length xs" by simp
  have "fold (\<lambda>i ys. ys[i := f (ys ! i)]) [0..<Suc n] xs =
        (map f (take n xs) @ drop n xs)[n := f ((map f (take n xs) @ drop n xs) ! n)]"
    using Suc by simp
  also have "\<dots> = map f (take n xs) @ (drop n xs)[0 := f (xs ! n)]"
    using n by (simp add: list_update_append nth_append)
  also have "(drop n xs)[0 := f (xs ! n)] = f (xs ! n) # drop (Suc n) xs"
    using n by (simp add: Cons_nth_drop_Suc [symmetric])
  also have "map f (take n xs) @ f (xs ! n) # drop (Suc n) xs =
             map f (take (Suc n) xs) @ drop (Suc n) xs"
    using n by (simp add: take_Suc_conv_app_nth)
  finally show ?case .
qed

lemma fold_update_all:
  "length xs = n \<Longrightarrow> fold (\<lambda>i ys. ys[i := f (ys ! i)]) [0..<n] xs = map f xs"
  using fold_update_each [of n xs f] by simp

lemma map_const_replicate: "(\<And>x. f x = c) \<Longrightarrow> map f xs = replicate (length xs) c"
  by (induction xs) simp_all

lemma and_not_disjoint:
  fixes c x m :: "'a::len word"
  assumes "c AND x = 0"
  shows "(m AND NOT x) AND c = m AND c"
proof (rule bit_eqI)
  fix n
  from assms have "\<not> (bit c n \<and> bit x n)"
    by (metis bit_and_iff bit_0_eq bot_apply bot_bool_def)
  then show "bit ((m AND NOT x) AND c) n = bit (m AND c) n"
    by (auto simp: bit_and_iff bit_not_iff dest: bit_imp_le_length)
qed

subsection \<open>The sentinel handle\<close>

text \<open>
  Claim C4. The handle value 0 is the invalid-handle sentinel \<open>SG_INVALID_ID\<close> and at
  the same time the default-pass handle \<open>SG_DEFAULT_PASS\<close>: the header defines the
  second enumerator by the first, so the two constants are equal and both are 0.
\<close>

theorem invalid_id_is_default_pass:
  "SG_INVALID_ID = 0 \<and> SG_DEFAULT_PASS = 0 \<and> SG_DEFAULT_PASS = SG_INVALID_ID"
  by (simp add: SG_DEFAULT_PASS_def SG_INVALID_ID_def)

subsection \<open>The encoding of pass actions\<close>

lemma clear_all_value: "SG_PASSACTION_CLEAR_ALL = 63"
  by (simp add: SG_PASSACTION_CLEAR_ALL_def SG_PASSACTION_CLEAR_COLOR_def
      SG_PASSACTION_CLEAR_DEPTH_STENCIL_def)

lemma load_all_value: "SG_PASSACTION_LOAD_ALL = 4032"
  by (simp add: SG_PASSACTION_LOAD_ALL_def SG_PASSACTION_LOAD_COLOR_def
      SG_PASSACTION_LOAD_DEPTH_STENCIL_def)

lemmas pass_action_bit_defs =
  SG_PASSACTION_CLEAR_COLOR0_def SG_PASSACTION_CLEAR_COLOR1_def SG_PASSACTION_CLEAR_COLOR2_def
  SG_PASSACTION_CLEAR_COLOR3_def SG_PASSACTION_CLEAR_DEPTH_def SG_PASSACTION_CLEAR_STENCIL_def
  SG_PASSACTION_LOAD_COLOR0_def SG_PASSACTION_LOAD_COLOR1_def SG_PASSACTION_LOAD_COLOR2_def
  SG_PASSACTION_LOAD_COLOR3_def SG_PASSACTION_LOAD_DEPTH_def SG_PASSACTION_LOAD_STENCIL_def

lemma clear_all_covers: "SG_PASSACTION_CLEAR_ALL AND clear_bit_of a = clear_bit_of a"
  by (cases a) (simp_all add: clear_all_value pass_action_bit_defs)

lemma clear_all_no_load: "SG_PASSACTION_CLEAR_ALL AND load_bit_of a = 0"
  by (cases a) (simp_all add: clear_all_value pass_action_bit_defs)

text \<open>
  Claim C5. The six attachments have twelve pairwise distinct enumerators, a clear bit
  and a load bit each; none of them is 0, no clear bit shares a bit with a load bit, and
  the bits of two different attachments are disjoint. The clear-all and the load-all
  masks are disjoint, and each is the union of the six bits of its kind. Any attachment
  \<open>a\<close> can be made "don't care" in any mask \<open>m\<close>: taking both bits of \<open>a\<close> out of
  \<open>m\<close> leaves the clear and load bits of every other attachment as they were.
\<close>

theorem pass_action_bits_encoding:
  "distinct (map clear_bit_of attachments @ map load_bit_of attachments) \<and>
   (\<forall>a. clear_bit_of a \<noteq> 0 \<and> load_bit_of a \<noteq> 0) \<and>
   (\<forall>a b. clear_bit_of a AND load_bit_of b = 0) \<and>
   (\<forall>a b. a \<noteq> b \<longrightarrow>
      clear_bit_of a AND clear_bit_of b = 0 \<and> load_bit_of a AND load_bit_of b = 0) \<and>
   SG_PASSACTION_CLEAR_ALL AND SG_PASSACTION_LOAD_ALL = 0 \<and>
   SG_PASSACTION_CLEAR_ALL = fold (OR) (map clear_bit_of attachments) 0 \<and>
   SG_PASSACTION_LOAD_ALL = fold (OR) (map load_bit_of attachments) 0 \<and>
   (\<forall>a m. dont_care a (make_dont_care a m) \<and>
      (\<forall>b. b \<noteq> a \<longrightarrow>
         make_dont_care a m AND clear_bit_of b = m AND clear_bit_of b \<and>
         make_dont_care a m AND load_bit_of b = m AND load_bit_of b))"
proof -
  have d: "distinct (map clear_bit_of attachments @ map load_bit_of attachments)"
    by (simp add: attachments_def pass_action_bit_defs)
  have nz: "clear_bit_of a \<noteq> 0 \<and> load_bit_of a \<noteq> 0" for a
    by (cases a) (simp_all add: pass_action_bit_defs)
  have cl: "clear_bit_of a AND load_bit_of b = 0" for a b
    by (cases a; cases b; simp add: pass_action_bit_defs)
  have pw: "clear_bit_of a AND clear_bit_of b = 0 \<and> load_bit_of a AND load_bit_of b = 0"
    if "a \<noteq> b" for a b
    using that by (cases a; cases b; simp add: pass_action_bit_defs)
  have dis: "SG_PASSACTION_CLEAR_ALL AND SG_PASSACTION_LOAD_ALL = 0"
    by (simp add: clear_all_value load_all_value)
  have u1: "SG_PASSACTION_CLEAR_ALL = fold (OR) (map clear_bit_of attachments) 0"
    by (simp add: clear_all_value attachments_def pass_action_bit_defs)
  have u2: "SG_PASSACTION_LOAD_ALL = fold (OR) (map load_bit_of attachments) 0"
    by (simp add: load_all_value attachments_def pass_action_bit_defs)
  have dc: "dont_care a (make_dont_care a m)" for a m
    by (simp add: dont_care_def make_dont_care_def bit_eq_iff bit_simps) blast
  have keep: "make_dont_care a m AND clear_bit_of b = m AND clear_bit_of b \<and>
      make_dont_care a m AND load_bit_of b = m AND load_bit_of b" if "b \<noteq> a" for a b m
  proof -
    have c: "clear_bit_of b AND (clear_bit_of a OR load_bit_of a) = 0"
      using that by (cases a; cases b; simp add: pass_action_bit_defs)
    have l: "load_bit_of b AND (clear_bit_of a OR load_bit_of a) = 0"
      using that by (cases a; cases b; simp add: pass_action_bit_defs)
    show ?thesis
      unfolding make_dont_care_def
      by (rule conjI; rule and_not_disjoint) (fact c, fact l)
  qed
  show ?thesis
    by (intro conjI allI impI d nz cl dis u1 u2 dc)
      (simp_all add: pw keep)
qed

theorem pass_action_bits_encoding_witness:
  "Color0 \<noteq> Depth \<and>
   clear_bit_of Color0 AND clear_bit_of Depth = 0 \<and>
   load_bit_of Color0 AND load_bit_of Depth = 0 \<and>
   dont_care Depth (make_dont_care Depth SG_PASSACTION_CLEAR_ALL) \<and>
   make_dont_care Depth SG_PASSACTION_CLEAR_ALL = 47 \<and>
   make_dont_care Depth SG_PASSACTION_CLEAR_ALL AND clear_bit_of Color0 =
     SG_PASSACTION_CLEAR_ALL AND clear_bit_of Color0 \<and>
   make_dont_care Depth SG_PASSACTION_CLEAR_ALL AND load_bit_of Color0 =
     SG_PASSACTION_CLEAR_ALL AND load_bit_of Color0"
proof -
  have ne: "Color0 \<noteq> Depth"
    by simp
  have v: "make_dont_care Depth SG_PASSACTION_CLEAR_ALL = 47"
    by (simp add: make_dont_care_def clear_all_value pass_action_bit_defs)
  from pass_action_bits_encoding ne v show ?thesis
    by blast
qed

subsection \<open>The initialisers\<close>

lemma fold_init_color_attachment:
  assumes "length col = 4" and "list_all (\<lambda>row. length row = 4) col"
  shows "fold init_color_attachment [0..<4] col = replicate 4 [0.5, 0.5, 0.5, 1]"
proof -
  from assms(1) obtain r0 r1 r2 r3 where col: "col = [r0, r1, r2, r3]"
    using length4_cases by blast
  with assms(2) have "length r0 = 4" "length r1 = 4" "length r2 = 4" "length r3 = 4"
    by simp_all
  then obtain a0 b0 c0 d0 a1 b1 c1 d1 a2 b2 c2 d2 a3 b3 c3 d3
    where "r0 = [a0, b0, c0, d0]" "r1 = [a1, b1, c1, d1]"
          "r2 = [a2, b2, c2, d2]" "r3 = [a3, b3, c3, d3]"
    using length4_cases by metis
  with col show ?thesis
    by (simp add: init_color_attachment_def upt_0_3 upt_0_4 numeral_eq_Suc)
qed

text \<open>
  Claim C2. Called on a pass action (a non-null pointer to a struct with its 4 by 4
  colour array), \<open>sg_init_pass_action\<close> returns, and in the pass action it leaves
  behind each of the 4 colour attachments is (0.5, 0.5, 0.5, 1.0), depth is 1.0, stencil
  is 0 and the action mask is \<open>SG_PASSACTION_CLEAR_ALL\<close>, which has the clear bit of
  every attachment and the load bit of none.
\<close>

theorem sg_init_pass_action_defaults:
  assumes "wf_pass_action pa"
  shows "case sg_init_pass_action (Some pa) of
           Inl e \<Rightarrow> False
         | Inr pa' \<Rightarrow>
             color pa' = replicate 4 [0.5, 0.5, 0.5, 1.0] \<and>
             depth pa' = 1.0 \<and> stencil pa' = 0 \<and>
             actions pa' = SG_PASSACTION_CLEAR_ALL \<and>
             (\<forall>a. actions pa' AND clear_bit_of a = clear_bit_of a) \<and>
             (\<forall>a. actions pa' AND load_bit_of a = 0)"
  using assms
  by (simp add: sg_init_pass_action_def wf_pass_action_def SG_MAX_COLOR_ATTACHMENTS_def
      fold_init_color_attachment clear_all_covers clear_all_no_load)

theorem sg_init_pass_action_defaults_witness:
  "wf_pass_action zeroed_pass_action \<and>
   sg_init_pass_action (Some zeroed_pass_action) =
     Inr \<lparr>color = [[0.5, 0.5, 0.5, 1], [0.5, 0.5, 0.5, 1], [0.5, 0.5, 0.5, 1], [0.5, 0.5, 0.5, 1]],
          depth = 1, stencil = 0, actions = 63\<rparr>"
proof -
  have wf: "wf_pass_action zeroed_pass_action"
    by (simp add: wf_pass_action_def zeroed_pass_action_def SG_MAX_COLOR_ATTACHMENTS_def)
  show ?thesis
    using sg_init_pass_action_defaults [OF wf] wf
    by (auto simp: clear_all_value numeral_eq_Suc split: sum.splits)
qed

text \<open>
  Claim C3. Called on a setup descriptor, \<open>sg_init_desc\<close> returns, and the descriptor
  it leaves behind has width 640, height 400, sample count 1 and the pool size 128 for
  each of the \<open>SG_NUM_RESOURCETYPES\<close> = 5 resource types.
\<close>

theorem sg_init_desc_defaults:
  assumes "wf_desc d"
  shows "case sg_init_desc (Some d) of
           Inl e \<Rightarrow> False
         | Inr d' \<Rightarrow>
             width d' = 640 \<and> height d' = 400 \<and> sample_count d' = 1 \<and>
             resource_pool_size d' = replicate SG_NUM_RESOURCETYPES 128"
proof -
  from assms have "length (resource_pool_size d) = 5"
    by (simp add: wf_desc_def SG_NUM_RESOURCETYPES_def)
  then obtain a b c e f where "resource_pool_size d = [a, b, c, e, f]"
    by (cases "resource_pool_size d"; simp; cases "tl (resource_pool_size d)"; simp;
        cases "tl (tl (resource_pool_size d))"; simp;
        cases "tl (tl (tl (resource_pool_size d)))"; simp;
        cases "tl (tl (tl (tl (resource_pool_size d))))"; simp)
  then show ?thesis
    by (simp add: sg_init_desc_def SG_NUM_RESOURCETYPES_def upt_0_5 numeral_eq_Suc)
qed

theorem sg_init_desc_defaults_witness:
  "wf_desc \<lparr>width = 0, height = 0, sample_count = 0, resource_pool_size = [0, 0, 0, 0, 0]\<rparr> \<and>
   sg_init_desc (Some \<lparr>width = 0, height = 0, sample_count = 0, resource_pool_size = [0, 0, 0, 0, 0]\<rparr>) =
     Inr \<lparr>width = 640, height = 400, sample_count = 1, resource_pool_size = [128, 128, 128, 128, 128]\<rparr>"
proof -
  have wf: "wf_desc \<lparr>width = 0, height = 0, sample_count = 0, resource_pool_size = [0, 0, 0, 0, 0]\<rparr>"
    by (simp add: wf_desc_def SG_NUM_RESOURCETYPES_def)
  show ?thesis
    using sg_init_desc_defaults [OF wf] wf
    by (auto simp: SG_NUM_RESOURCETYPES_def numeral_eq_Suc split: sum.splits)
qed

text \<open>
  Claim C9. Called on a buffer descriptor, \<open>sg_init_buffer_desc\<close> returns, and the
  descriptor it leaves behind describes an immutable vertex buffer without data: size 0,
  type vertex buffer, usage immutable, null data pointer, data size 0. Immutable is the
  usage for which the specification does not permit updates after creation.
\<close>

theorem sg_init_buffer_desc_defaults:
  "case sg_init_buffer_desc (Some d) of
     Inl e \<Rightarrow> False
   | Inr d' \<Rightarrow>
       buffer_size d' = 0 \<and> buffer_type d' = SG_BUFFERTYPE_VERTEX_BUFFER \<and>
       usage d' = SG_USAGE_IMMUTABLE \<and> data_ptr d' = None \<and> data_size d' = 0 \<and>
       \<not> update_permitted (usage d')"
  by (simp add: sg_init_buffer_desc_def update_permitted_def)

text \<open>
  The shader initialiser overwrites every field: whatever the memory held before, the
  result is \<open>default_shader_desc\<close>.
\<close>

lemma init_uniform_block_desc_default:
  assumes "length (uniforms ub) = 16"
  shows "init_uniform_block_desc ub =
     \<lparr>num_uniforms = 0,
      uniforms = replicate 16
        \<lparr>uniform_name = None, uniform_type = SG_UNIFORMTYPE_INVALID, offset = 0, array_size = 1\<rparr>\<rparr>"
proof -
  have c: "init_uniform_desc u =
      \<lparr>uniform_name = None, uniform_type = SG_UNIFORMTYPE_INVALID, offset = 0, array_size = 1\<rparr>" for u
    by (simp add: init_uniform_desc_def)
  have "fold (\<lambda>u_index us. us[u_index := init_uniform_desc (us ! u_index)]) [0..<16] (uniforms ub) =
        map init_uniform_desc (uniforms ub)"
    using fold_update_all [of "uniforms ub" 16 init_uniform_desc] assms by simp
  also have "\<dots> = replicate 16
        \<lparr>uniform_name = None, uniform_type = SG_UNIFORMTYPE_INVALID, offset = 0, array_size = 1\<rparr>"
    using map_const_replicate [of init_uniform_desc _ "uniforms ub", OF c] assms by simp
  finally show ?thesis
    by (simp add: init_uniform_block_desc_def SG_MAX_UNIFORMS_def)
qed

lemma sg_init_shader_stage_desc_default:
  assumes "wf_shader_stage_desc sd"
  shows "sg_init_shader_stage_desc sd = default_shader_stage_desc"
proof -
  from assms have ubs: "length (uniform_blocks sd) = 4"
    and each: "\<And>ub. ub \<in> set (uniform_blocks sd) \<Longrightarrow> length (uniforms ub) = 16"
    and imgs: "length (images sd) = 12"
    by (simp_all add: wf_shader_stage_desc_def SG_MAX_SHADERSTAGE_UBS_def SG_MAX_UNIFORMS_def
        SG_MAX_SHADERSTAGE_IMAGES_def list_all_iff)
  let ?ub = "\<lparr>num_uniforms = 0,
      uniforms = replicate 16
        \<lparr>uniform_name = None, uniform_type = SG_UNIFORMTYPE_INVALID, offset = 0, array_size = 1\<rparr>\<rparr>"
  have "map init_uniform_block_desc (uniform_blocks sd) = map (\<lambda>_. ?ub) (uniform_blocks sd)"
    by (rule map_cong) (simp_all add: each init_uniform_block_desc_default)
  then have m: "map init_uniform_block_desc (uniform_blocks sd) = replicate 4 ?ub"
    by (simp add: map_replicate_const ubs)
  have u: "fold (\<lambda>ub_index ubs. ubs[ub_index := init_uniform_block_desc (ubs ! ub_index)])
             [0..<4] (uniform_blocks sd) = replicate 4 ?ub"
    using fold_update_all [of "uniform_blocks sd" 4 init_uniform_block_desc] ubs m by simp
  have c: "init_image_desc img = \<lparr>image_name = None, image_type = SG_IMAGETYPE_INVALID\<rparr>" for img
    by (simp add: init_image_desc_def)
  have "fold (\<lambda>img_index imgs. imgs[img_index := init_image_desc (imgs ! img_index)])
          [0..<12] (images sd) = map init_image_desc (images sd)"
    using fold_update_all [of "images sd" 12 init_image_desc] imgs by simp
  also have "\<dots> = replicate 12 \<lparr>image_name = None, image_type = SG_IMAGETYPE_INVALID\<rparr>"
    using map_const_replicate [of init_image_desc _ "images sd", OF c] imgs by simp
  finally show ?thesis
    using u
    by (simp add: sg_init_shader_stage_desc_def default_shader_stage_desc_def
        SG_MAX_SHADERSTAGE_UBS_def SG_MAX_SHADERSTAGE_IMAGES_def)
qed

lemma sg_init_shader_desc_default:
  assumes "wf_shader_desc d"
  shows "sg_init_shader_desc (Some d) = Inr default_shader_desc"
proof -
  from assms have len: "length (shader_attrs d) = 16"
    by (simp add: wf_shader_desc_def SG_MAX_VERTEX_ATTRIBUTES_def)
  have c: "clear_vertex_attr a = \<lparr>name = None, format = SG_VERTEXFORMAT_INVALID\<rparr>" for a
    by (simp add: clear_vertex_attr_def)
  have "fold (\<lambda>i as. as[i := clear_vertex_attr (as ! i)]) [0..<16] (shader_attrs d) =
        map clear_vertex_attr (shader_attrs d)"
    using fold_update_all [of "shader_attrs d" 16 clear_vertex_attr] len by simp
  also have "\<dots> = replicate 16 \<lparr>name = None, format = SG_VERTEXFORMAT_INVALID\<rparr>"
    using map_const_replicate [of clear_vertex_attr _ "shader_attrs d", OF c] len by simp
  finally show ?thesis
    using assms
    by (simp add: sg_init_shader_desc_def default_shader_desc_def wf_shader_desc_def
        sg_init_shader_stage_desc_default SG_MAX_VERTEX_ATTRIBUTES_def)
qed

text \<open>
  The pipeline initialiser overwrites every field: whatever the memory held before, the
  result is \<open>default_pipeline_desc\<close>, in which every layout has 0 attributes.
\<close>

lemma sg_init_vertex_layout_default:
  assumes "length (attrs l) = 16"
  shows "sg_init_vertex_layout l = default_vertex_layout"
proof -
  let ?f = "\<lambda>a::sg_vertex_attr. a\<lparr>name := None, format := SG_VERTEXFORMAT_INVALID\<rparr>"
  have "(\<lambda>i as. let as1 = as[i := (as ! i)\<lparr>name := None\<rparr>]
                  in as1[i := (as1 ! i)\<lparr>format := SG_VERTEXFORMAT_INVALID\<rparr>]) =
        (\<lambda>i as. as[i := ?f (as ! i)])"
    apply (intro ext)
    subgoal for i as by (cases "i < length as") (simp_all add: Let_def list_update_beyond)
    done
  moreover have "map ?f (attrs l) = replicate 16 \<lparr>name = None, format = SG_VERTEXFORMAT_INVALID\<rparr>"
    using map_const_replicate [of ?f "\<lparr>name = None, format = SG_VERTEXFORMAT_INVALID\<rparr>" "attrs l"] assms
    by simp
  moreover note fold_update_all [of "attrs l" 16 ?f]
  ultimately show ?thesis
    using assms
    by (cases l)
      (simp add: sg_init_vertex_layout_def default_vertex_layout_def SG_MAX_VERTEX_ATTRIBUTES_def)
qed

lemma sg_init_depth_stencil_state_default:
  "sg_init_depth_stencil_state s = default_depth_stencil_state"
  by (simp add: sg_init_depth_stencil_state_def sg_init_stencil_state_def
      default_depth_stencil_state_def default_stencil_state_def)

lemma sg_init_blend_state_default:
  assumes "length (blend_color s) = 4"
  shows "sg_init_blend_state s = default_blend_state"
proof -
  have "fold (\<lambda>i bc. bc[i := 1]) [0..<4] (blend_color s) = map (\<lambda>_. 1) (blend_color s)"
    using fold_update_all [of "blend_color s" 4 "\<lambda>_. 1"] assms by simp
  also have "\<dots> = [1, 1, 1, 1]"
    using assms by (simp add: map_replicate_const numeral_eq_Suc)
  finally show ?thesis
    by (simp add: sg_init_blend_state_def default_blend_state_def SG_COLORMASK_RGBA_def)
qed

lemma sg_init_rasterizer_state_default:
  "sg_init_rasterizer_state s = default_rasterizer_state"
  by (simp add: sg_init_rasterizer_state_def default_rasterizer_state_def)

lemma sg_init_pipeline_desc_default:
  assumes "wf_pipeline_desc d"
  shows "sg_init_pipeline_desc (Some d) = Inr default_pipeline_desc"
proof -
  from assms have len: "length (layouts d) = 4"
    and each: "\<And>l. l \<in> set (layouts d) \<Longrightarrow> length (attrs l) = 16"
    and bc: "length (blend_color (blend d)) = 4"
    by (simp_all add: wf_pipeline_desc_def SG_MAX_SHADERSTAGE_BUFFERS_def
        SG_MAX_VERTEX_ATTRIBUTES_def list_all_iff)
  have "map sg_init_vertex_layout (layouts d) = map (\<lambda>_. default_vertex_layout) (layouts d)"
    by (rule map_cong) (simp_all add: each sg_init_vertex_layout_default)
  then have ls: "map sg_init_vertex_layout (layouts d) = replicate 4 default_vertex_layout"
    by (simp add: map_replicate_const len)
  have "fold (\<lambda>i ls. ls[i := sg_init_vertex_layout (ls ! i)]) [0..<4] (layouts d) =
        replicate 4 default_vertex_layout"
    using fold_update_all [of "layouts d" 4 sg_init_vertex_layout] len ls by simp
  then show ?thesis
    by (simp add: sg_init_pipeline_desc_def SG_MAX_SHADERSTAGE_BUFFERS_def
        default_pipeline_desc_def sg_init_depth_stencil_state_default
        sg_init_blend_state_default bc sg_init_rasterizer_state_default SG_INVALID_ID_def)
qed

lemma wf_default_pipeline_desc: "wf_pipeline_desc default_pipeline_desc"
  by (simp add: wf_pipeline_desc_def default_pipeline_desc_def default_vertex_layout_def
      default_blend_state_def SG_MAX_SHADERSTAGE_BUFFERS_def SG_MAX_VERTEX_ATTRIBUTES_def
      list_all_iff)

subsection \<open>Adding vertex attributes\<close>

text \<open>
  Claim C1. When the attribute count of a shader descriptor, or of the targeted layout
  slot of a pipeline descriptor, is already \<open>SG_MAX_VERTEX_ATTRIBUTES\<close> = 16, adding a
  further attribute is rejected, whatever the name and the format: the call stops at an
  assertion. Every assertion precedes the first write to the descriptor, so the call
  neither returns an updated descriptor (nothing is dropped silently) nor writes past
  the end of the attribute array.
\<close>

theorem attr_limit_rejected:
  "(shader_num_attrs sd = int SG_MAX_VERTEX_ATTRIBUTES \<longrightarrow>
      sg_shader_desc_attr (Some sd) nm fmt = Inl Assertion_failed) \<and>
   (0 \<le> slot \<and> slot < int SG_MAX_SHADERSTAGE_BUFFERS \<and>
    num_attrs (layouts pd ! nat slot) = int SG_MAX_VERTEX_ATTRIBUTES \<longrightarrow>
      sg_pipeline_desc_attr (Some pd) slot nm fmt = Inl Assertion_failed)"
  by (simp add: sg_shader_desc_attr_def sg_pipeline_desc_attr_def)

theorem attr_limit_rejected_witness:
  "shader_num_attrs full_shader_desc = int SG_MAX_VERTEX_ATTRIBUTES \<and>
   sg_shader_desc_attr (Some full_shader_desc) (Some ''position'') SG_VERTEXFORMAT_FLOAT3 =
     Inl Assertion_failed \<and>
   (0::int) \<le> 2 \<and> (2::int) < int SG_MAX_SHADERSTAGE_BUFFERS \<and>
   num_attrs (layouts full_pipeline_desc ! nat 2) = int SG_MAX_VERTEX_ATTRIBUTES \<and>
   sg_pipeline_desc_attr (Some full_pipeline_desc) 2 (Some ''position'') SG_VERTEXFORMAT_FLOAT3 =
     Inl Assertion_failed"
proof -
  have h1: "shader_num_attrs full_shader_desc = int SG_MAX_VERTEX_ATTRIBUTES"
    by (simp add: full_shader_desc_def SG_MAX_VERTEX_ATTRIBUTES_def)
  have h2: "(0::int) \<le> 2 \<and> (2::int) < int SG_MAX_SHADERSTAGE_BUFFERS"
    by (simp add: SG_MAX_SHADERSTAGE_BUFFERS_def)
  have h3: "num_attrs (layouts full_pipeline_desc ! nat 2) = int SG_MAX_VERTEX_ATTRIBUTES"
    by (simp add: full_pipeline_desc_def SG_MAX_VERTEX_ATTRIBUTES_def)
  from attr_limit_rejected
    [of full_shader_desc "Some ''position''" SG_VERTEXFORMAT_FLOAT3 2 full_pipeline_desc]
    h1 h2 h3
  show ?thesis by blast
qed

text \<open>
  A pipeline descriptor built through the header keeps every attribute count between 0
  and 16: \<open>sg_init_pipeline_desc\<close> sets the counts to 0 and a successful
  \<open>sg_pipeline_desc_attr\<close> keeps them in that range.
\<close>

lemma sg_pipeline_desc_attr_count_range:
  assumes wf: "wf_pipeline_desc d"
    and rng: "\<forall>l \<in> set (layouts d). 0 \<le> num_attrs l \<and> num_attrs l \<le> int SG_MAX_VERTEX_ATTRIBUTES"
    and ok: "sg_pipeline_desc_attr (Some d) slot nm fmt = Inr d'"
  shows "wf_pipeline_desc d' \<and>
         (\<forall>l \<in> set (layouts d'). 0 \<le> num_attrs l \<and> num_attrs l \<le> int SG_MAX_VERTEX_ATTRIBUTES)"
proof -
  let ?l = "layouts d ! nat slot"
  from ok have slot: "0 \<le> slot" "slot < int SG_MAX_SHADERSTAGE_BUFFERS"
    and hi: "num_attrs ?l < int SG_MAX_VERTEX_ATTRIBUTES" and lo: "0 \<le> num_attrs ?l"
    by (auto simp: sg_pipeline_desc_attr_def Let_def split: if_splits)
  from wf slot have s: "nat slot < length (layouts d)"
    by (simp add: wf_pipeline_desc_def)
  from ok slot hi lo obtain l' where d': "d' = d\<lparr>layouts := (layouts d)[nat slot := l']\<rparr>"
    and n': "num_attrs l' = num_attrs ?l + 1" and len': "length (attrs l') = length (attrs ?l)"
    by (auto simp: sg_pipeline_desc_attr_def Let_def split: if_splits)
  have mem: "l \<in> set (layouts d') \<Longrightarrow> l = l' \<or> l \<in> set (layouts d)" for l
    using d' set_update_subset_insert [of "layouts d" "nat slot" l'] by auto
  from s have "?l \<in> set (layouts d)" by simp
  with wf have "length (attrs ?l) = SG_MAX_VERTEX_ATTRIBUTES"
    by (simp add: wf_pipeline_desc_def list_all_iff)
  with wf mem len' d' have "wf_pipeline_desc d'"
    by (auto simp: wf_pipeline_desc_def list_all_iff)
  moreover have "0 \<le> num_attrs l \<and> num_attrs l \<le> int SG_MAX_VERTEX_ATTRIBUTES"
    if "l \<in> set (layouts d')" for l
    using mem [OF that] rng n' lo hi by auto
  ultimately show ?thesis by blast
qed

text \<open>
  Claim C10, with a lower bound on the count. For a pipeline descriptor, a slot in [0, 4), a non-null name, a
  format other than invalid and an attribute count of the slot's layout from 0 up to 15,
  \<open>sg_pipeline_desc_attr\<close> returns; it has stored the name and the format at index
  \<open>num_attrs\<close> of that layout and raised its \<open>num_attrs\<close> by 1. Everything else is as
  before: the shader id, the depth-stencil, blend and rasterizer states, the other three
  layouts, and in the slot's layout the step function, the step rate and every other
  attribute.
\<close>

theorem sg_pipeline_desc_attr_appends:
  assumes wf: "wf_pipeline_desc d"
    and slot: "0 \<le> slot" "slot < int SG_MAX_SHADERSTAGE_BUFFERS"
    and nm: "nm \<noteq> None"
    and fmt: "fmt \<noteq> SG_VERTEXFORMAT_INVALID"
    and lo: "0 \<le> num_attrs (layouts d ! nat slot)"
    and hi: "num_attrs (layouts d ! nat slot) < int SG_MAX_VERTEX_ATTRIBUTES"
  shows "case sg_pipeline_desc_attr (Some d) slot nm fmt of
           Inl e \<Rightarrow> False
         | Inr d' \<Rightarrow>
             shader d' = shader d \<and> depth_stencil d' = depth_stencil d \<and>
             blend d' = blend d \<and> rast d' = rast d \<and>
             length (layouts d') = length (layouts d) \<and>
             (\<forall>j. j \<noteq> nat slot \<longrightarrow> layouts d' ! j = layouts d ! j) \<and>
             (let l = layouts d ! nat slot; l' = layouts d' ! nat slot; i = nat (num_attrs l)
              in num_attrs l' = num_attrs l + 1 \<and>
                 step_func l' = step_func l \<and> step_rate l' = step_rate l \<and>
                 length (attrs l') = length (attrs l) \<and>
                 attrs l' ! i = \<lparr>name = nm, format = fmt\<rparr> \<and>
                 (\<forall>k. k \<noteq> i \<longrightarrow> attrs l' ! k = attrs l ! k))"
proof -
  let ?l = "layouts d ! nat slot"
  from wf slot have s: "nat slot < length (layouts d)"
    by (simp add: wf_pipeline_desc_def)
  with wf have "length (attrs ?l) = SG_MAX_VERTEX_ATTRIBUTES"
    by (simp add: wf_pipeline_desc_def list_all_length)
  with lo hi have i: "nat (num_attrs ?l) < length (attrs ?l)"
    by simp
  have rec: "r\<lparr>name := nm, format := fmt\<rparr> = \<lparr>name = nm, format = fmt\<rparr>" for r :: sg_vertex_attr
    by (cases r) simp
  from s i slot nm fmt lo hi show ?thesis
    by (simp add: sg_pipeline_desc_attr_def Let_def rec)
qed

theorem sg_pipeline_desc_attr_appends_witness:
  "wf_pipeline_desc default_pipeline_desc \<and>
   (0::int) \<le> 1 \<and> (1::int) < int SG_MAX_SHADERSTAGE_BUFFERS \<and>
   Some ''position'' \<noteq> None \<and> SG_VERTEXFORMAT_FLOAT3 \<noteq> SG_VERTEXFORMAT_INVALID \<and>
   0 \<le> num_attrs (layouts default_pipeline_desc ! nat 1) \<and>
   num_attrs (layouts default_pipeline_desc ! nat 1) < int SG_MAX_VERTEX_ATTRIBUTES \<and>
   (case sg_pipeline_desc_attr (Some default_pipeline_desc) 1 (Some ''position'')
           SG_VERTEXFORMAT_FLOAT3 of
      Inl e \<Rightarrow> False
    | Inr d' \<Rightarrow>
        shader d' = 0 \<and> num_attrs (layouts d' ! 1) = 1 \<and>
        attrs (layouts d' ! 1) ! 0 = \<lparr>name = Some ''position'', format = SG_VERTEXFORMAT_FLOAT3\<rparr> \<and>
        attrs (layouts d' ! 1) ! 1 = \<lparr>name = None, format = SG_VERTEXFORMAT_INVALID\<rparr> \<and>
        layouts d' ! 0 = default_vertex_layout)"
proof -
  have h1: "(0::int) \<le> 1" and h2: "(1::int) < int SG_MAX_SHADERSTAGE_BUFFERS"
    and h3: "Some ''position'' \<noteq> None" and h4: "SG_VERTEXFORMAT_FLOAT3 \<noteq> SG_VERTEXFORMAT_INVALID"
    by (simp_all add: SG_MAX_SHADERSTAGE_BUFFERS_def)
  have n: "num_attrs (layouts default_pipeline_desc ! Suc 0) = 0"
    by (simp add: default_pipeline_desc_def default_vertex_layout_def)
  have h5: "0 \<le> num_attrs (layouts default_pipeline_desc ! nat 1)"
    and h6: "num_attrs (layouts default_pipeline_desc ! nat 1) < int SG_MAX_VERTEX_ATTRIBUTES"
    by (simp_all add: default_pipeline_desc_def default_vertex_layout_def
        SG_MAX_VERTEX_ATTRIBUTES_def)
  have v: "shader default_pipeline_desc = 0"
    "layouts default_pipeline_desc ! 0 = default_vertex_layout"
    "attrs (layouts default_pipeline_desc ! 1) ! 1 = \<lparr>name = None, format = SG_VERTEXFORMAT_INVALID\<rparr>"
    by (simp_all add: default_pipeline_desc_def default_vertex_layout_def)
  note t = sg_pipeline_desc_attr_appends [OF wf_default_pipeline_desc h1 h2 h3 h4 h5 h6]
  show ?thesis
    using t wf_default_pipeline_desc h2 h5 h6 v
    by (auto simp: n Let_def split: sum.splits)
qed

text \<open>
  The lower bound on the count is needed. The specification asks of the attribute count
  of the targeted layout only that it is below 16; the count is a C \<open>int\<close>, and the
  header asserts no lower bound on it. With the count -1 every assertion passes and the
  attribute slot taken is \<open>attrs[-1]\<close>, outside the array: no attribute is appended.
\<close>

theorem sg_pipeline_desc_attr_negative_count:
  "wf_pipeline_desc negative_count_pipeline_desc \<and>
   (0::int) \<le> 0 \<and> (0::int) < int SG_MAX_SHADERSTAGE_BUFFERS \<and>
   Some ''position'' \<noteq> None \<and> SG_VERTEXFORMAT_FLOAT3 \<noteq> SG_VERTEXFORMAT_INVALID \<and>
   num_attrs (layouts negative_count_pipeline_desc ! nat 0) < int SG_MAX_VERTEX_ATTRIBUTES \<and>
   sg_pipeline_desc_attr (Some negative_count_pipeline_desc) 0 (Some ''position'')
     SG_VERTEXFORMAT_FLOAT3 = Inl Out_of_bounds"
  by (simp add: negative_count_pipeline_desc_def default_pipeline_desc_def
      default_vertex_layout_def default_blend_state_def wf_pipeline_desc_def
      SG_MAX_SHADERSTAGE_BUFFERS_def SG_MAX_VERTEX_ATTRIBUTES_def sg_pipeline_desc_attr_def
      list_all_iff)
section \<open>Properties of the resource pools\<close>

subsection \<open>Shape and generations\<close>

lemma nth_list_update_if:
  "xs[i := x] ! j = (if i = j \<and> i < length xs then x else xs ! j)"
  by (cases "i < length xs") (auto simp: list_update_beyond)

lemma length_slots_allocate [simp]: "length (slots (snd (allocate p))) = length (slots p)"
  by (simp add: allocate_def split: list.splits)

lemma length_slots_release [simp]: "length (slots (release h p)) = length (slots p)"
  by (simp add: release_def Let_def)

lemma length_slots_destroy [simp]: "length (slots (destroy h p)) = length (slots p)"
  by (simp add: destroy_def Let_def)

lemma length_slots_init [simp]: "length (slots (init h r p)) = length (slots p)"
  by (simp add: init_def Let_def split: option.splits)

lemma length_slots_exec [simp]: "length (slots (exec c p)) = length (slots p)"
  by (cases c) simp_all

lemma length_slots_run [simp]: "length (slots (run cs p)) = length (slots p)"
  unfolding run_def by (induction cs arbitrary: p) simp_all

lemma run_Nil [simp]: "run [] p = p"
  by (simp add: run_def)

lemma run_Cons [simp]: "run (c # cs) p = run cs (exec c p)"
  by (simp add: run_def)

lemma run_append [simp]: "run (cs @ ds) p = run ds (run cs p)"
  by (simp add: run_def)

lemma slot_gen_allocate:
  "slot_gen (slots (snd (allocate p)) ! j) = slot_gen (slots p ! j)"
  by (cases "free_list p")
    (simp_all add: allocate_def nth_list_update_if)

lemma slot_gen_init: "slot_gen (slots (init h r p) ! j) = slot_gen (slots p ! j)"
  by (simp add: init_def Let_def nth_list_update_if split: option.splits)

lemma slot_gen_destroy:
  "slot_gen (slots (destroy h p) ! j) =
     slot_gen (slots p ! j) + (if handle_valid h p \<and> slot_index h = j then 1 else 0)"
  by (cases h)
    (auto simp: destroy_def release_def Let_def handle_valid_def nth_list_update_if)

lemma slot_gen_exec:
  "slot_gen (slots (exec c p) ! j) =
     slot_gen (slots p ! j) +
       (case c of Destroy h \<Rightarrow> if handle_valid h p \<and> slot_index h = j then 1 else 0 | _ \<Rightarrow> 0)"
  by (cases c) (simp_all add: slot_gen_allocate slot_gen_init slot_gen_destroy)

lemma slot_gen_run:
  "slot_gen (slots (run cs p) ! j) = slot_gen (slots p ! j) + of_nat (destroys_of j cs p)"
proof (induction cs arbitrary: p)
  case Nil
  then show ?case by simp
next
  case (Cons c cs)
  show ?case
    by (cases c) (simp_all add: Cons.IH slot_gen_allocate slot_gen_init slot_gen_destroy)
qed

lemma handle_valid_gen:
  "handle_valid h p \<Longrightarrow> slot_gen (slots p ! slot_index h) = generation h"
  by (cases h) (simp_all add: handle_valid_def)

lemma handle_valid_index:
  "handle_valid h p \<Longrightarrow> slot_index h < length (slots p)"
  by (cases h) (simp_all add: handle_valid_def)

lemma handle_valid_Handle:
  "handle_valid h p \<Longrightarrow> h = Handle (slot_index h) (generation h)"
  by (cases h) (simp_all add: handle_valid_def)

lemma allocate_Handle:
  "allocate p = (Handle i g, q) \<Longrightarrow> g = slot_gen (slots p ! i)"
  by (auto simp: allocate_def split: list.splits)

lemma destroy_then_allocate:
  assumes "handle_valid h p"
  shows "fst (allocate (destroy h p)) = Handle (slot_index h) (generation h + 1) \<and>
         handle_valid (Handle (slot_index h) (generation h + 1)) (snd (allocate (destroy h p))) \<and>
         slot_state (slots (snd (allocate (destroy h p))) ! slot_index h) = SG_RESOURCESTATE_ALLOC"
proof -
  from assms obtain i g where h: "h = Handle i g" and i: "i < length (slots p)"
    and st: "slot_state (slots p ! i) \<noteq> SG_RESOURCESTATE_INITIAL"
    and g: "slot_gen (slots p ! i) = g"
    by (cases h) (simp_all add: handle_valid_def)
  then show ?thesis
    by (simp add: destroy_def release_def handle_valid_def Let_def allocate_def)
qed

lemma stale_valid_wraps:
  fixes h :: "'w::len word handle"
  assumes "handle_valid h p" and "handle_valid h (run cs (destroy h p))"
  shows "2 ^ LENGTH('w) dvd Suc (destroys_of (slot_index h) cs (destroy h p))"
proof -
  let ?i = "slot_index h" and ?p1 = "destroy h p"
  let ?d = "destroys_of ?i cs ?p1"
  have "generation h = slot_gen (slots (run cs ?p1) ! ?i)"
    using assms(2) by (simp add: handle_valid_gen)
  also have "\<dots> = slot_gen (slots ?p1 ! ?i) + of_nat ?d"
    by (rule slot_gen_run)
  also have "slot_gen (slots ?p1 ! ?i) = generation h + 1"
    using assms(1) by (simp add: slot_gen_destroy handle_valid_gen)
  finally have "(of_nat (Suc ?d) :: 'w word) = 0"
    by simp
  then show ?thesis
    by (simp only: word_of_nat_eq_0_iff)
qed

lemma reuse_step:
  "exec Alloc (destroy (Handle 0 g) (allocated_pool g)) = allocated_pool (g + 1)"
  by (simp add: allocated_pool_def destroy_def release_def handle_valid_def allocate_def)

lemma run_reuse_cycle:
  "run (reuse_cycle k) p = exec Alloc (destroy (Handle 0 (of_nat k)) p)"
  by (simp add: reuse_cycle_def)

lemma run_reuse_cycles:
  "run (concat (map reuse_cycle [a..<a + n])) (allocated_pool (of_nat a)) =
     allocated_pool (of_nat (a + n))"
proof (induction n)
  case 0
  then show ?case by simp
next
  case (Suc n)
  have "run (concat (map reuse_cycle [a..<a + Suc n])) (allocated_pool (of_nat a)) =
        run (reuse_cycle (a + n)) (allocated_pool (of_nat (a + n)))"
    using Suc.IH by simp
  also have "\<dots> = allocated_pool (of_nat (a + n) + 1)"
    by (simp only: run_reuse_cycle reuse_step)
  finally show ?case by (simp add: ac_simps)
qed

text \<open>
  Claim C6, as far as a generation of finitely many bits allows. Destroying a live handle
  \<open>h\<close> moves the generation of its slot to the next value, which differs from the old
  one, and no other step changes a generation: a command changes the generation of slot
  \<open>j\<close> only if it destroys a valid handle of slot \<open>j\<close>, and then by 1. The handle
  allocated next reuses the slot of \<open>h\<close> with the next generation, so it differs from
  \<open>h\<close>. After any commands \<open>cs\<close> that follow the destruction of \<open>h\<close>, the handle \<open>h\<close>
  is not valid, \<open>lookup\<close> answers "not found" for it, also when its slot has a new
  occupant, and an allocation of its slot gives a generation other than that of \<open>h\<close> -
  unless the number of destroy transitions of the slot, that of \<open>h\<close> and those in \<open>cs\<close>,
  is a multiple of \<open>2 ^ LENGTH('w)\<close>, the number of generations a handle can tell apart.
  In particular all this holds while the slot has been destroyed fewer than
  \<open>2 ^ LENGTH('w)\<close> times.
\<close>

theorem stale_handle_until_wrap:
  fixes h :: "'w::len word handle" and p :: "('w word, 'a) pool"
  assumes "handle_valid h p"
  shows "slot_gen (slots (destroy h p) ! slot_index h) = slot_gen (slots p ! slot_index h) + 1 \<and>
         slot_gen (slots (destroy h p) ! slot_index h) \<noteq> slot_gen (slots p ! slot_index h) \<and>
         (\<forall>c (q :: ('w word, 'a) pool) j. slot_gen (slots (exec c q) ! j) =
            slot_gen (slots q ! j) +
              (case c of
                 Destroy k \<Rightarrow> if handle_valid k q \<and> slot_index k = j then 1 else 0
               | _ \<Rightarrow> 0)) \<and>
         fst (allocate (destroy h p)) = Handle (slot_index h) (generation h + 1) \<and>
         Handle (slot_index h) (generation h + 1) \<noteq> h \<and>
         (\<forall>cs. \<not> 2 ^ LENGTH('w) dvd Suc (destroys_of (slot_index h) cs (destroy h p)) \<longrightarrow>
            \<not> handle_valid h (run cs (destroy h p)) \<and>
            lookup h (run cs (destroy h p)) = None \<and>
            (\<forall>g q. allocate (run cs (destroy h p)) = (Handle (slot_index h) g, q) \<longrightarrow>
               g \<noteq> generation h)) \<and>
         (\<forall>cs. Suc (destroys_of (slot_index h) cs (destroy h p)) < 2 ^ LENGTH('w) \<longrightarrow>
            \<not> handle_valid h (run cs (destroy h p)) \<and>
            lookup h (run cs (destroy h p)) = None)"
proof -
  let ?i = "slot_index h" and ?p1 = "destroy h p"
  let ?L = "2 ^ LENGTH('w) :: nat"
  have g1: "slot_gen (slots ?p1 ! ?i) = slot_gen (slots p ! ?i) + 1"
    using assms by (simp add: slot_gen_destroy)
  then have g2: "slot_gen (slots ?p1 ! ?i) \<noteq> slot_gen (slots p ! ?i)"
    by simp
  have ex: "\<forall>c (q :: ('w word, 'a) pool) j. slot_gen (slots (exec c q) ! j) =
            slot_gen (slots q ! j) +
              (case c of
                 Destroy k \<Rightarrow> if handle_valid k q \<and> slot_index k = j then 1 else 0
               | _ \<Rightarrow> 0)"
    by (intro allI) (rule slot_gen_exec)
  have al: "fst (allocate ?p1) = Handle ?i (generation h + 1)"
    using destroy_then_allocate [OF assms] by simp
  have ne: "Handle ?i (generation h + 1) \<noteq> h"
  proof
    assume "Handle ?i (generation h + 1) = h"
    then have "generation (Handle ?i (generation h + 1)) = generation h"
      by simp
    then show False by simp
  qed
  have stale: "\<not> handle_valid h (run cs ?p1)" if "\<not> ?L dvd Suc (destroys_of ?i cs ?p1)" for cs
    using that stale_valid_wraps [OF assms, of cs] by blast
  have lk: "lookup h (run cs ?p1) = None" if "\<not> ?L dvd Suc (destroys_of ?i cs ?p1)" for cs
    using stale [OF that] by (simp add: lookup_def)
  have fresh: "g \<noteq> generation h"
    if nd: "\<not> ?L dvd Suc (destroys_of ?i cs ?p1)"
      and a: "allocate (run cs ?p1) = (Handle ?i g, q)" for cs g q
  proof
    assume "g = generation h"
    with a have "slot_gen (slots (run cs ?p1) ! ?i) = generation h"
      using allocate_Handle by fastforce
    then have "(of_nat (Suc (destroys_of ?i cs ?p1)) :: 'w word) = 0"
      using g1 handle_valid_gen [OF assms] by (simp add: slot_gen_run)
    with nd show False
      by (simp only: word_of_nat_eq_0_iff)
  qed
  have small: "\<not> ?L dvd Suc (destroys_of ?i cs ?p1)"
    if "Suc (destroys_of ?i cs ?p1) < ?L" for cs
    using that by (auto dest: dvd_imp_le)
  show ?thesis
    using g1 g2 ex al ne stale lk fresh small by blast
qed

theorem stale_handle_until_wrap_witness:
  "handle_valid (Handle 0 0) one_slot_pool \<and>
   fst (allocate (destroy (Handle 0 0) one_slot_pool)) = Handle 0 1 \<and>
   destroys_of 0 [Alloc, Init (Handle 0 1) (Some 5)] (destroy (Handle 0 0) one_slot_pool) = 0 \<and>
   \<not> 2 ^ LENGTH(16) dvd Suc 0 \<and>
   Suc 0 < (2 ^ LENGTH(16) :: nat) \<and>
   lookup (Handle 0 1)
     (run [Alloc, Init (Handle 0 1) (Some 5)] (destroy (Handle 0 0) one_slot_pool)) = Some 5 \<and>
   \<not> handle_valid (Handle 0 0)
     (run [Alloc, Init (Handle 0 1) (Some 5)] (destroy (Handle 0 0) one_slot_pool)) \<and>
   lookup (Handle 0 0)
     (run [Alloc, Init (Handle 0 1) (Some 5)] (destroy (Handle 0 0) one_slot_pool)) = None"
proof -
  let ?cs = "[Alloc, Init (Handle 0 1) (Some 5)] :: (16 word, nat) command list"
  have hv: "handle_valid (Handle 0 0) one_slot_pool"
    by code_simp
  have al: "fst (allocate (destroy (Handle 0 0) one_slot_pool)) = Handle 0 1"
    by code_simp
  have d: "destroys_of 0 ?cs (destroy (Handle 0 0) one_slot_pool) = 0"
    by simp
  have nd: "\<not> 2 ^ LENGTH(16) dvd Suc 0"
    by simp
  have lt: "Suc 0 < (2 ^ LENGTH(16) :: nat)"
    by simp
  have lk: "lookup (Handle 0 1) (run ?cs (destroy (Handle 0 0) one_slot_pool)) = Some 5"
    by code_simp
  note t = stale_handle_until_wrap [OF hv, THEN conjunct2, THEN conjunct2, THEN conjunct2,
      THEN conjunct2, THEN conjunct2, THEN conjunct1, rule_format, of ?cs]
  have nd': "\<not> 2 ^ LENGTH(16) dvd
      Suc (destroys_of (slot_index (Handle 0 (0 :: 16 word))) ?cs
             (destroy (Handle 0 0) one_slot_pool))"
    using nd d by simp
  from t [OF nd']
  have st: "\<not> handle_valid (Handle 0 0) (run ?cs (destroy (Handle 0 0) one_slot_pool)) \<and>
        lookup (Handle 0 0) (run ?cs (destroy (Handle 0 0) one_slot_pool)) = None"
    by blast
  from hv al d nd lt lk st show ?thesis
    by (iprover intro: conjI)
qed

text \<open>
  The stale handle can resolve again. With 16 bits for the generation, destroy the
  handle of generation 0 of slot 0, then allocate and destroy the slot 65535 more times
  and allocate and initialise it once more: the generation of the slot is 0 again, and
  the handle destroyed at the start is valid and looks up the payload of the new
  occupant.
\<close>

theorem stale_handle_resolves_after_wrap:
  "handle_valid (Handle 0 0) one_slot_pool \<and>
   handle_valid (Handle 0 0)
     (run (Alloc # concat (map reuse_cycle [1..<65536]) @ [Init (Handle 0 0) (Some 7)])
        (destroy (Handle 0 0) one_slot_pool)) \<and>
   lookup (Handle 0 0)
     (run (Alloc # concat (map reuse_cycle [1..<65536]) @ [Init (Handle 0 0) (Some 7)])
        (destroy (Handle 0 0) one_slot_pool)) = Some 7"
proof -
  let ?C = "concat (map reuse_cycle [1..<65536])"
  let ?I = "Init (Handle 0 (0 :: 16 word)) (Some (7 :: nat))"
  have p0: "one_slot_pool = allocated_pool 0"
    by (simp add: one_slot_pool_def allocated_pool_def setup_pool_def allocate_def)
  have hv: "handle_valid (Handle 0 0) one_slot_pool"
    by code_simp
  have n: "(65536 :: nat) = 1 + 65535"
    by simp
  have "run ?C (allocated_pool (of_nat 1)) = (allocated_pool (of_nat (1 + 65535)) :: (16 word, nat) pool)"
    unfolding n by (rule run_reuse_cycles)
  moreover have "(of_nat (1 + 65535) :: 16 word) = 0"
    by simp
  ultimately have c: "run ?C (allocated_pool 1) = (allocated_pool 0 :: (16 word, nat) pool)"
    by (simp only: of_nat_1)
  have "run (Alloc # ?C @ [?I]) (destroy (Handle 0 0) one_slot_pool) =
        run [?I] (run ?C (exec Alloc (destroy (Handle 0 0) (allocated_pool 0))))"
    by (simp only: run_Cons run_append p0)
  also have "exec Alloc (destroy (Handle 0 0) (allocated_pool 0)) =
        (allocated_pool (0 + 1) :: (16 word, nat) pool)"
    by (rule reuse_step)
  also have "(0 :: 16 word) + 1 = 1"
    by simp
  finally have r: "run (Alloc # ?C @ [?I]) (destroy (Handle 0 0) one_slot_pool) =
        run [?I] (allocated_pool 0)"
    by (simp only: c)
  have v: "handle_valid (Handle 0 0) (run [?I] (allocated_pool 0))"
    by (simp add: allocated_pool_def init_def handle_valid_def)
  have l: "lookup (Handle 0 0) (run [?I] (allocated_pool 0)) = Some 7"
    by (simp add: allocated_pool_def init_def handle_valid_def lookup_def)
  from hv v l show ?thesis
    by (simp only: r simp_thms)
qed

subsection \<open>The free-list invariant\<close>

lemma pool_inv_setup: "pool_inv (setup_pool n)"
  by (simp add: pool_inv_def setup_pool_def)

lemma pool_inv_allocate:
  assumes "pool_inv p"
  shows "pool_inv (snd (allocate p))"
proof (cases "free_list p")
  case Nil
  with assms show ?thesis by (simp add: allocate_def)
next
  case (Cons i rest)
  with assms have i: "i < length (slots p)" and ni: "i \<notin> set rest" and d: "distinct rest"
    by (simp_all add: pool_inv_def)
  show ?thesis
    using assms Cons i ni d
    by (auto simp: pool_inv_def allocate_def nth_list_update_if)
qed

lemma pool_inv_init:
  assumes "pool_inv p"
  shows "pool_inv (init h r p)"
proof (cases "handle_valid h p \<and> slot_state (slots p ! slot_index h) = SG_RESOURCESTATE_ALLOC")
  case False
  with assms show ?thesis by (auto simp: init_def Let_def)
next
  case True
  then have "slot_index h < length (slots p)"
    by (simp add: handle_valid_index)
  with assms True show ?thesis
    by (cases r) (auto simp: pool_inv_def init_def Let_def nth_list_update_if)
qed

lemma pool_inv_destroy:
  assumes "pool_inv p"
  shows "pool_inv (destroy h p)"
proof (cases "handle_valid h p")
  case False
  with assms show ?thesis by (simp add: destroy_def)
next
  case True
  then obtain i g where h: "h = Handle i g" and i: "i < length (slots p)"
    and st: "slot_state (slots p ! i) \<noteq> SG_RESOURCESTATE_INITIAL"
    and g: "slot_gen (slots p ! i) = g"
    by (cases h) (simp_all add: handle_valid_def)
  from assms i st have "i \<notin> set (free_list p)"
    by (simp add: pool_inv_def)
  with assms h i st g show ?thesis
    by (auto simp: pool_inv_def destroy_def release_def handle_valid_def Let_def
        nth_list_update_if)
qed

lemma pool_inv_exec: "pool_inv p \<Longrightarrow> pool_inv (exec c p)"
  by (cases c) (simp_all add: pool_inv_allocate pool_inv_init pool_inv_destroy)

lemma run_setup_inv:
  "pool_inv (run cs (setup_pool n)) \<and> length (slots (run cs (setup_pool n))) = n"
proof (induction cs rule: rev_induct)
  case Nil
  show ?case by (simp add: pool_inv_setup) (simp add: setup_pool_def)
next
  case (snoc c cs)
  then show ?case by (simp add: pool_inv_exec)
qed

subsection \<open>The state machine of a slot\<close>

lemma slot_state_allocate:
  assumes "pool_inv p" and "i < length (slots p)"
  shows "slot_state (slots (snd (allocate p)) ! i) = slot_state (slots p ! i) \<or>
         slot_state (slots p ! i) = SG_RESOURCESTATE_INITIAL \<and>
         slot_state (slots (snd (allocate p)) ! i) = SG_RESOURCESTATE_ALLOC"
proof (cases "free_list p")
  case Nil
  then show ?thesis by (simp add: allocate_def)
next
  case (Cons j rest)
  with assms have "slot_state (slots p ! j) = SG_RESOURCESTATE_INITIAL"
    by (auto simp: pool_inv_def)
  with Cons show ?thesis
    by (auto simp: allocate_def nth_list_update_if)
qed

lemma slot_state_init:
  "slot_state (slots (init h r p) ! i) = slot_state (slots p ! i) \<or>
   slot_state (slots p ! i) = SG_RESOURCESTATE_ALLOC \<and>
   (slot_state (slots (init h r p) ! i) = SG_RESOURCESTATE_VALID \<or>
    slot_state (slots (init h r p) ! i) = SG_RESOURCESTATE_FAILED)"
  by (cases r) (auto simp: init_def Let_def nth_list_update_if)

lemma slot_state_destroy:
  "slot_state (slots (destroy h p) ! i) = slot_state (slots p ! i) \<or>
   slot_state (slots p ! i) \<noteq> SG_RESOURCESTATE_INITIAL \<and>
   slot_state (slots (destroy h p) ! i) = SG_RESOURCESTATE_INITIAL"
  by (cases h) (auto simp: destroy_def release_def handle_valid_def Let_def nth_list_update_if)

lemma destroy_valid_state:
  assumes "handle_valid h p"
  shows "slot_state (slots (destroy h p) ! slot_index h) = SG_RESOURCESTATE_INITIAL"
  using assms
  by (cases h) (auto simp: destroy_def release_def handle_valid_def Let_def nth_list_update_if)

lemma slot_step:
  assumes inv: "pool_inv p" and i: "i < length (slots p)"
  shows "let s = slot_state (slots p ! i); s' = slot_state (slots (exec c p) ! i)
          in s' = s \<or>
             (case c of
                Alloc \<Rightarrow> s = SG_RESOURCESTATE_INITIAL \<and> s' = SG_RESOURCESTATE_ALLOC
              | Init h r \<Rightarrow>
                  s = SG_RESOURCESTATE_ALLOC \<and>
                  (s' = SG_RESOURCESTATE_VALID \<or> s' = SG_RESOURCESTATE_FAILED)
              | Destroy h \<Rightarrow>
                  (s = SG_RESOURCESTATE_ALLOC \<or> s = SG_RESOURCESTATE_VALID \<or>
                   s = SG_RESOURCESTATE_FAILED) \<and>
                  s' = SG_RESOURCESTATE_INITIAL)"
proof (cases c)
  case Alloc
  with slot_state_allocate [OF inv i] show ?thesis by (auto simp: Let_def)
next
  case (Init h r)
  with slot_state_init [of h r p i] show ?thesis by (auto simp: Let_def)
next
  case (Destroy h)
  with slot_state_destroy [of h p i] show ?thesis
    by (cases "slot_state (slots p ! i)") (auto simp: Let_def)
qed

lemma passes_through_alloc:
  assumes "i < n"
    and "slot_state (slots (run cs (setup_pool n)) ! i) = SG_RESOURCESTATE_VALID \<or>
         slot_state (slots (run cs (setup_pool n)) ! i) = SG_RESOURCESTATE_FAILED"
  shows "\<exists>cs1 cs2. cs = cs1 @ cs2 \<and>
           slot_state (slots (run cs1 (setup_pool n)) ! i) = SG_RESOURCESTATE_ALLOC"
  using assms(2)
proof (induction cs rule: rev_induct)
  case Nil
  with assms(1) show ?case by (simp add: setup_pool_def)
next
  case (snoc c cs)
  let ?p = "run cs (setup_pool n)"
  let ?s = "slot_state (slots ?p ! i)" and ?s' = "slot_state (slots (exec c ?p) ! i)"
  from snoc.prems have fin: "?s' = SG_RESOURCESTATE_VALID \<or> ?s' = SG_RESOURCESTATE_FAILED"
    by simp
  from run_setup_inv [of cs n] assms(1) have "pool_inv ?p" and "i < length (slots ?p)"
    by simp_all
  note st = slot_step [OF this, of c]
  show ?case
  proof (cases "?s' = ?s")
    case True
    with fin snoc.IH obtain cs1 cs2 where "cs = cs1 @ cs2"
      and "slot_state (slots (run cs1 (setup_pool n)) ! i) = SG_RESOURCESTATE_ALLOC"
      by auto
    then have "cs @ [c] = cs1 @ (cs2 @ [c]) \<and>
        slot_state (slots (run cs1 (setup_pool n)) ! i) = SG_RESOURCESTATE_ALLOC"
      by simp
    then show ?thesis by blast
  next
    case False
    with st fin have "?s = SG_RESOURCESTATE_ALLOC"
      by (cases c) (auto simp: Let_def)
    then have "cs @ [c] = cs @ [c] \<and>
        slot_state (slots (run cs (setup_pool n)) ! i) = SG_RESOURCESTATE_ALLOC"
      by simp
    then show ?thesis by blast
  qed
qed

text \<open>
  Claim C8. Let \<open>p\<close> be the pool that a sequence \<open>cs\<close> of commands reaches from the setup
  of a pool of capacity \<open>n\<close>. One further command moves a slot of \<open>p\<close> along an edge of
  the state machine or leaves its state alone: \<open>Alloc\<close> takes it from initial to
  allocated, \<open>Init\<close> from allocated to valid or failed, \<open>Destroy\<close> from allocated, valid
  or failed back to initial, and nothing else happens. So valid and failed are entered
  from allocated only: if the slot is valid or failed in \<open>p\<close>, the run \<open>cs\<close> has an
  earlier moment at which the slot was allocated. Destroying a valid handle, whose slot
  is allocated, valid or failed, always returns the slot to initial, and \<open>create\<close> is the
  step \<open>Alloc\<close> followed by the step \<open>Init\<close>.
\<close>

theorem slot_state_machine:
  assumes "i < n"
  shows "(let p = run cs (setup_pool n);
              s = slot_state (slots p ! i); s' = slot_state (slots (exec c p) ! i)
          in s' = s \<or>
             (case c of
                Alloc \<Rightarrow> s = SG_RESOURCESTATE_INITIAL \<and> s' = SG_RESOURCESTATE_ALLOC
              | Init h r \<Rightarrow>
                  s = SG_RESOURCESTATE_ALLOC \<and>
                  (s' = SG_RESOURCESTATE_VALID \<or> s' = SG_RESOURCESTATE_FAILED)
              | Destroy h \<Rightarrow>
                  (s = SG_RESOURCESTATE_ALLOC \<or> s = SG_RESOURCESTATE_VALID \<or>
                   s = SG_RESOURCESTATE_FAILED) \<and>
                  s' = SG_RESOURCESTATE_INITIAL)) \<and>
         (slot_state (slots (run cs (setup_pool n)) ! i) = SG_RESOURCESTATE_VALID \<or>
          slot_state (slots (run cs (setup_pool n)) ! i) = SG_RESOURCESTATE_FAILED \<longrightarrow>
            (\<exists>cs1 cs2. cs = cs1 @ cs2 \<and>
               slot_state (slots (run cs1 (setup_pool n)) ! i) = SG_RESOURCESTATE_ALLOC)) \<and>
         (\<forall>h. handle_valid h (run cs (setup_pool n)) \<longrightarrow>
            slot_state (slots (destroy h (run cs (setup_pool n))) ! slot_index h) =
              SG_RESOURCESTATE_INITIAL) \<and>
         (\<forall>r. create r (run cs (setup_pool n)) =
            (fst (allocate (run cs (setup_pool n))),
             run (cs @ [Alloc, Init (fst (allocate (run cs (setup_pool n)))) r]) (setup_pool n)))"
proof -
  let ?p = "run cs (setup_pool n)"
  from run_setup_inv [of cs n] assms have inv: "pool_inv ?p" and i: "i < length (slots ?p)"
    by simp_all
  have st: "let p = ?p; s = slot_state (slots p ! i); s' = slot_state (slots (exec c p) ! i)
          in s' = s \<or>
             (case c of
                Alloc \<Rightarrow> s = SG_RESOURCESTATE_INITIAL \<and> s' = SG_RESOURCESTATE_ALLOC
              | Init h r \<Rightarrow>
                  s = SG_RESOURCESTATE_ALLOC \<and>
                  (s' = SG_RESOURCESTATE_VALID \<or> s' = SG_RESOURCESTATE_FAILED)
              | Destroy h \<Rightarrow>
                  (s = SG_RESOURCESTATE_ALLOC \<or> s = SG_RESOURCESTATE_VALID \<or>
                   s = SG_RESOURCESTATE_FAILED) \<and>
                  s' = SG_RESOURCESTATE_INITIAL)"
    using slot_step [OF inv i, of c] by (simp add: Let_def)
  have cr: "create r ?p =
      (fst (allocate ?p), run (cs @ [Alloc, Init (fst (allocate ?p)) r]) (setup_pool n))" for r
    by (simp add: create_def split: prod.splits)
  from st cr passes_through_alloc [OF assms, of cs] destroy_valid_state show ?thesis
    by blast
qed

theorem slot_state_machine_witness:
  "(0::nat) < 1 \<and>
   one_slot_pool = run [Alloc] (setup_pool 1) \<and>
   slot_state (slots one_slot_pool ! 0) = SG_RESOURCESTATE_ALLOC \<and>
   slot_state (slots (exec (Init (Handle 0 0) (Some 5)) one_slot_pool) ! 0) = SG_RESOURCESTATE_VALID \<and>
   handle_valid (Handle 0 0) one_slot_pool \<and>
   slot_state (slots (destroy (Handle 0 0) one_slot_pool) ! slot_index (Handle 0 (0 :: 16 word))) =
     SG_RESOURCESTATE_INITIAL \<and>
   valid_slot_pool = run [Alloc, Init (Handle 0 0) (Some 5)] (setup_pool 1) \<and>
   slot_state (slots valid_slot_pool ! 0) = SG_RESOURCESTATE_VALID \<and>
   (\<exists>cs1 cs2. [Alloc, Init (Handle 0 0) (Some 5)] = cs1 @ cs2 \<and>
      slot_state (slots (run cs1 (setup_pool 1 :: (16 word, nat) pool)) ! 0) = SG_RESOURCESTATE_ALLOC) \<and>
   create (Some 5) (setup_pool 1) = (Handle 0 0, valid_slot_pool)"
proof -
  have i: "(0::nat) < 1"
    by simp
  have p1: "one_slot_pool = run [Alloc] (setup_pool 1)"
    by (simp add: one_slot_pool_def)
  have hv: "handle_valid (Handle 0 0) one_slot_pool"
    by code_simp
  have s: "slot_state (slots one_slot_pool ! 0) = SG_RESOURCESTATE_ALLOC"
    by code_simp
  have s': "slot_state (slots (exec (Init (Handle 0 0) (Some 5)) one_slot_pool) ! 0) =
      SG_RESOURCESTATE_VALID"
    by code_simp
  note t1 = slot_state_machine [OF i, of "[Alloc] :: (16 word, nat) command list" "Init (Handle 0 0) (Some 5)",
      folded p1]
  from t1 hv
  have d: "slot_state (slots (destroy (Handle 0 0) one_slot_pool) ! slot_index (Handle 0 (0 :: 16 word))) =
      SG_RESOURCESTATE_INITIAL"
    by blast
  have p2: "valid_slot_pool = run [Alloc, Init (Handle 0 0) (Some 5)] (setup_pool 1)"
    by (simp add: valid_slot_pool_def)
  have v: "slot_state (slots valid_slot_pool ! 0) = SG_RESOURCESTATE_VALID"
    by (simp add: valid_slot_pool_def setup_pool_def allocate_def init_def handle_valid_def
        Let_def)
  note t2 = slot_state_machine [OF i, of "[Alloc, Init (Handle 0 0) (Some 5)] :: (16 word, nat) command list" Alloc,
      THEN conjunct2, THEN conjunct1, folded p2]
  have t: "\<exists>cs1 cs2. [Alloc, Init (Handle 0 0) (Some 5)] = cs1 @ cs2 \<and>
      slot_state (slots (run cs1 (setup_pool 1 :: (16 word, nat) pool)) ! 0) = SG_RESOURCESTATE_ALLOC"
    by (rule t2 [rule_format]) (intro disjI1 v)
  have c: "create (Some 5) (setup_pool 1) = (Handle 0 0, valid_slot_pool)"
    by (simp add: valid_slot_pool_def create_def setup_pool_def allocate_def init_def
        handle_valid_def Let_def)
  from i p1 hv s s' d p2 v t c show ?thesis
    by (iprover intro: conjI)
qed

subsection \<open>Exhaustion and reuse\<close>

lemma allocate_empty: "free_list p = [] \<Longrightarrow> allocate p = (Invalid_handle, p)"
  by (simp add: allocate_def)

lemma allocate_nonempty:
  assumes "pool_inv p" and "free_list p = i # rest"
  shows "fst (allocate p) = Handle i (slot_gen (slots p ! i)) \<and>
         handle_valid (Handle i (slot_gen (slots p ! i))) (snd (allocate p)) \<and>
         free_list (snd (allocate p)) = rest"
proof -
  from assms have "i < length (slots p)" by (simp add: pool_inv_def)
  with assms(2) show ?thesis
    by (simp add: allocate_def handle_valid_def)
qed

lemma handle_valid_allocate:
  assumes "pool_inv p" and "handle_valid h p"
  shows "handle_valid h (snd (allocate p))"
proof (cases "free_list p")
  case Nil
  with assms show ?thesis by (simp add: allocate_def)
next
  case (Cons j rest)
  from assms(2) obtain i g where h: "h = Handle i g" and i: "i < length (slots p)"
    and st: "slot_state (slots p ! i) \<noteq> SG_RESOURCESTATE_INITIAL"
    and g: "slot_gen (slots p ! i) = g"
    by (cases h) (simp_all add: handle_valid_def)
  with Cons show ?thesis
    by (simp add: allocate_def handle_valid_def nth_list_update_if)
qed

lemma snd_alloc_n_Suc: "snd (alloc_n (Suc k) p) = snd (alloc_n k (snd (allocate p)))"
  by (simp split: prod.splits)

lemma handle_valid_alloc_n:
  "pool_inv p \<Longrightarrow> handle_valid h p \<Longrightarrow> handle_valid h (snd (alloc_n k p))"
proof (induction k arbitrary: p)
  case 0
  then show ?case by simp
next
  case (Suc k)
  have "handle_valid h (snd (alloc_n k (snd (allocate p))))"
    using Suc.prems by (intro Suc.IH pool_inv_allocate handle_valid_allocate)
  then show ?case by (simp only: snd_alloc_n_Suc)
qed

lemma alloc_n_fill:
  assumes "pool_inv p" and "length (free_list p) = k" and "alloc_n k p = (hs, q)"
  shows "length hs = k \<and> (\<forall>h \<in> set hs. h \<noteq> Invalid_handle \<and> handle_valid h q) \<and>
         free_list q = [] \<and> pool_inv q \<and> length (slots q) = length (slots p)"
  using assms
proof (induction k arbitrary: p hs q)
  case 0
  then show ?case by simp
next
  case (Suc k)
  from Suc.prems(2) obtain i rest where fl: "free_list p = i # rest" and len: "length rest = k"
    by (cases "free_list p") simp_all
  let ?p' = "snd (allocate p)" and ?h = "fst (allocate p)"
  obtain hs' q' where an: "alloc_n k ?p' = (hs', q')"
    by (cases "alloc_n k ?p'")
  note a = allocate_nonempty [OF Suc.prems(1) fl]
  have inv': "pool_inv ?p'"
    using Suc.prems(1) by (rule pool_inv_allocate)
  from a len have len': "length (free_list ?p') = k" by simp
  note ih = Suc.IH [OF inv' len' an]
  from Suc.prems(3) an have hs: "hs = ?h # hs'" and q: "q = q'"
    by (simp_all split: prod.splits)
  from a have "handle_valid ?h ?p'" by simp
  then have "handle_valid ?h (snd (alloc_n k ?p'))"
    using inv' by (intro handle_valid_alloc_n)
  with an have hq: "handle_valid ?h q'" by simp
  from a have hn: "?h \<noteq> Invalid_handle" by simp
  from ih hs q hq hn show ?case by simp
qed

lemma live_count_free_list:
  fixes p :: "('g, 'a) pool"
  assumes "pool_inv p"
  shows "length (free_list p) + live_count p = length (slots p)"
proof -
  let ?P = "\<lambda>s::('g, 'a) slot. slot_state s = SG_RESOURCESTATE_INITIAL"
  have "set (free_list p) = {i. i < length (slots p) \<and> ?P (slots p ! i)}"
    using assms by (auto simp: pool_inv_def)
  moreover have "card (set (free_list p)) = length (free_list p)"
    using assms by (simp add: pool_inv_def distinct_card)
  ultimately have "length (filter ?P (slots p)) = length (free_list p)"
    by (simp add: length_filter_conv_card)
  moreover have "length (filter ?P (slots p)) + live_count p = length (slots p)"
    unfolding live_count_def by (rule sum_length_filter_compl)
  ultimately show ?thesis by simp
qed

text \<open>
  Claim C7. Let \<open>p\<close> be the pool that a sequence \<open>cs\<close> of commands reaches from the setup
  of a pool of capacity \<open>n\<close>. It has as many free slots as \<open>n\<close> exceeds its live
  resources (all \<open>n\<close> in the fresh pool). Allocating that many times succeeds every
  time, with valid handles, and leaves \<open>n\<close> live resources. The next \<open>allocate\<close> fails
  softly: it returns the invalid sentinel and leaves the pool as it is. After any live
  resource is destroyed, \<open>allocate\<close> succeeds again: it hands out the freed slot with the
  generation raised by 1 (in the width a handle has for it), and that handle is valid.
\<close>

theorem pool_exhaustion_is_soft:
  "(let p = run cs (setup_pool n)
    in length (free_list p) + live_count p = n \<and>
       (case alloc_n (length (free_list p)) p of
          (hs, q) \<Rightarrow>
            length hs = length (free_list p) \<and>
            (\<forall>h \<in> set hs. h \<noteq> Invalid_handle \<and> handle_valid h q) \<and>
            live_count q = n \<and>
            allocate q = (Invalid_handle, q) \<and>
            (\<forall>h. handle_valid h q \<longrightarrow>
               (case allocate (destroy h q) of
                  (h', q') \<Rightarrow>
                    h' = Handle (slot_index h) (generation h + 1) \<and>
                    handle_valid h' q' \<and>
                    slot_state (slots q' ! slot_index h) = SG_RESOURCESTATE_ALLOC))))"
proof -
  let ?p = "run cs (setup_pool n)"
  from run_setup_inv [of cs n] have inv: "pool_inv ?p" and len: "length (slots ?p) = n"
    by simp_all
  obtain hs q where an: "alloc_n (length (free_list ?p)) ?p = (hs, q)"
    by (cases "alloc_n (length (free_list ?p)) ?p")
  note fill = alloc_n_fill [OF inv refl an]
  then have invq: "pool_inv q" and fq: "free_list q = []" and lq: "length (slots q) = n"
    using len by simp_all
  have lc: "live_count q = n"
    using live_count_free_list [OF invq] fq lq by simp
  have da: "case allocate (destroy h q) of
              (h', q') \<Rightarrow>
                h' = Handle (slot_index h) (generation h + 1) \<and>
                handle_valid h' q' \<and>
                slot_state (slots q' ! slot_index h) = SG_RESOURCESTATE_ALLOC"
    if "handle_valid h q" for h
    using destroy_then_allocate [OF that] by (cases "allocate (destroy h q)") simp
  from fill lc da allocate_empty [OF fq] live_count_free_list [OF inv] len an
  show ?thesis by (simp add: Let_def)
qed

theorem pool_exhaustion_is_soft_witness:
  "two_slot_pool = run [] (setup_pool 2) \<and>
   length (free_list two_slot_pool) + live_count two_slot_pool = 2 \<and>
   alloc_n (length (free_list two_slot_pool)) two_slot_pool =
     ([Handle 0 0, Handle 1 0], full_two_slot_pool) \<and>
   allocate full_two_slot_pool = (Invalid_handle, full_two_slot_pool) \<and>
   handle_valid (Handle 1 0) full_two_slot_pool \<and>
   fst (allocate (destroy (Handle 1 0) full_two_slot_pool)) = Handle 1 1"
proof -
  have p: "two_slot_pool = run [] (setup_pool 2)"
    by (simp add: two_slot_pool_def)
  have an: "alloc_n (length (free_list two_slot_pool)) two_slot_pool =
      ([Handle 0 0, Handle 1 0], full_two_slot_pool)"
    by code_simp
  have hv: "handle_valid (Handle 1 0) full_two_slot_pool"
    by code_simp
  note t = pool_exhaustion_is_soft [of "[] :: (16 word, nat) command list" 2, folded p, unfolded Let_def]
  from t have a0: "length (free_list two_slot_pool) + live_count two_slot_pool = 2"
    by (rule conjunct1)
  from t an have a1: "allocate full_two_slot_pool = (Invalid_handle, full_two_slot_pool)"
    by simp
  from t an have "\<forall>h. handle_valid h full_two_slot_pool \<longrightarrow>
      (case allocate (destroy h full_two_slot_pool) of
         (h', q') \<Rightarrow>
           h' = Handle (slot_index h) (generation h + 1) \<and>
           handle_valid h' q' \<and>
           slot_state (slots q' ! slot_index h) = SG_RESOURCESTATE_ALLOC)"
    by simp
  with hv have a2: "fst (allocate (destroy (Handle 1 0) full_two_slot_pool)) = Handle 1 1"
    by (fastforce split: prod.splits)
  from p a0 an a1 hv a2 show ?thesis
    by (iprover intro: conjI)
qed

end
